theory Spec2Isabelle
  imports Complex_Main "HOL-Library.Sublist"
begin

section \<open>JavaScript strings\<close>

text \<open>
  A JavaScript string is a sequence of UTF-16 code units and \<open>length\<close> counts code units.
  Here a \<open>char\<close> stands for one code unit; the model covers the code units below 256
  (the Latin-1 range), which is where every marker, label and template of the program lives.

  \<open>is_space\<close> is the set shared by \<open>String.prototype.trim\<close> and the regular-expression class
  \<open>\s\<close> (WhiteSpace and LineTerminator), restricted to that range: TAB, LF, VT, FF, CR,
  SPACE and NO-BREAK SPACE.
\<close>

definition is_space :: "char \<Rightarrow> bool" where
  "is_space c = (c = CHR 0x09 \<or> c = CHR 0x0A \<or> c = CHR 0x0B \<or> c = CHR 0x0C \<or>
                 c = CHR 0x0D \<or> c = CHR 0x20 \<or> c = CHR 0xA0)"

definition trim :: "string \<Rightarrow> string" where
  "trim s = rev (dropWhile is_space (rev (dropWhile is_space s)))"

text \<open>\<open>String.prototype.toLowerCase\<close> on the Latin-1 range: A-Z and the accented capitals
  0xC0-0xDE (without the multiplication sign 0xD7) move up by 32.\<close>

definition lower_char :: "char \<Rightarrow> char" where
  "lower_char c = (let n = (of_char c :: nat) in
     if (65 \<le> n \<and> n \<le> 90) \<or> (192 \<le> n \<and> n \<le> 222 \<and> n \<noteq> 215)
     then char_of (n + 32) else c)"

definition toLowerCase :: "string \<Rightarrow> string" where
  "toLowerCase s = map lower_char s"

text \<open>
  The \<open>i\<close> flag of a regular expression without the \<open>u\<close> flag compares characters after
  \<open>Canonicalize\<close>: the character is upper-cased, unless that gives more than one code unit
  or maps a code unit from 128 up to one below 128. On the Latin-1 range: a-z and
  0xE0-0xFE (without the division sign 0xF7) move down by 32; the upper-case forms of
  0xB5 and 0xFF lie outside the range, where nothing of the model can equal them, and
  0xDF upper-cases to two code units, so these three are kept.
\<close>

definition canonicalize :: "char \<Rightarrow> char" where
  "canonicalize c = (let n = (of_char c :: nat) in
     if (97 \<le> n \<and> n \<le> 122) \<or> (224 \<le> n \<and> n \<le> 254 \<and> n \<noteq> 247)
     then char_of (n - 32) else c)"

text \<open>\<open>ci_prefix p s\<close>: the literal pattern \<open>p\<close> matches at the start of \<open>s\<close> under the
  \<open>i\<close> flag; \<open>cs_prefix\<close> is the same without the flag.\<close>

definition ci_prefix :: "string \<Rightarrow> string \<Rightarrow> bool" where
  "ci_prefix p s = (length p \<le> length s \<and>
     map canonicalize (take (length p) s) = map canonicalize p)"

definition cs_prefix :: "string \<Rightarrow> string \<Rightarrow> bool" where
  "cs_prefix p s = (length p \<le> length s \<and> take (length p) s = p)"

text \<open>
  \<open>String.prototype.match\<close> with a regular expression without the \<open>g\<close> flag tries the
  pattern at every start position from left to right, the end of the string included,
  and returns the first success; \<open>None\<close> is the \<open>null\<close> of a failed match. The argument
  \<open>m\<close> is the pattern tried at the start of a string; it returns capture group 1.
\<close>

fun regex_search :: "(string \<Rightarrow> 'a option) \<Rightarrow> string \<Rightarrow> 'a option" where
  "regex_search m [] = m []"
| "regex_search m (c # cs) =
     (case m (c # cs) of Some r \<Rightarrow> Some r | None \<Rightarrow> regex_search m cs)"

section \<open>Parsing the collaborator's output (gemini.js, lines 52-68)\<close>

text \<open>
  \<open>/TYPE:\s*(commentary|question)/i\<close> tried at the start of \<open>s\<close>. After the marker the
  greedy \<open>\s*\<close> takes the whole run of white space; giving some of it back cannot help,
  because the next character would then be white space, which matches neither alternative.
  The alternatives are tried in the order written. The result is the text matched by the
  group, in the case the input has it.
\<close>

definition type_at :: "string \<Rightarrow> string option" where
  "type_at s =
     (if ci_prefix ''TYPE:'' s then
        (let r = dropWhile is_space (drop 5 s) in
         if ci_prefix ''commentary'' r then Some (take 10 r)
         else if ci_prefix ''question'' r then Some (take 8 r)
         else None)
      else None)"

text \<open>
  \<open>/TEXT:\s*(.+)/s\<close> tried at the start of \<open>s\<close>; the marker is case-sensitive here, and
  with the \<open>s\<close> flag the dot matches every character, line breaks included. The greedy
  \<open>\s*\<close> takes the whole run of white space and the group takes the rest; when nothing is
  left after the white space, \<open>\s*\<close> gives back its last character to the group; when
  nothing at all follows the marker, the match fails.
\<close>

definition text_at :: "string \<Rightarrow> string option" where
  "text_at s =
     (if cs_prefix ''TEXT:'' s then
        (let rest = drop 5 s; r = dropWhile is_space rest in
         if rest = [] then None
         else if r = [] then Some [last rest]
         else Some r)
      else None)"

text \<open>The value \<open>generateMarginNote\<close> resolves to: \<open>{type, text}\<close>.\<close>

record annotation =
  type :: string
  "text" :: string

definition parseResponse :: "string \<Rightarrow> annotation" where
  "parseResponse responseText =
     (let typeMatch = regex_search type_at responseText;
          textMatch = regex_search text_at responseText
      in case typeMatch of
           None \<Rightarrow> \<lparr>type = ''commentary'', text = trim responseText\<rparr>
         | Some t \<Rightarrow>
             (case textMatch of
                None \<Rightarrow> \<lparr>type = ''commentary'', text = trim responseText\<rparr>
              | Some b \<Rightarrow> \<lparr>type = toLowerCase t, text = trim b\<rparr>))"

section \<open>The text-generation collaborator\<close>

text \<open>
  The collaborator is external: \<open>model.generateContent(prompt)\<close>, then \<open>result.response\<close>
  and \<open>response.text()\<close>. Any of the three may throw or reject, which is \<open>Inl\<close>; otherwise
  the text is \<open>Inr\<close>. Its answer may differ from call to call, so a behaviour is a function
  of the call's number within one request and of the prompt.
\<close>

datatype error = CollaboratorError | SyntaxError

type_synonym collaborator = "nat \<Rightarrow> string \<Rightarrow> error + string"

text \<open>A template literal is written here as the list of its lines.\<close>

fun join_lines :: "string list \<Rightarrow> string" where
  "join_lines [] = []"
| "join_lines [l] = l"
| "join_lines (l # ls) = l @ ''\<newline>'' @ join_lines ls"

section \<open>The single-stage client (gemini.js)\<close>

definition prompt :: "string \<Rightarrow> string" where
  \<open>prompt paragraphText = join_lines
    [''You are a thoughtful writing companion. The user is journaling and you're providing reflections in the margins.'',
     '''',
     ''For this paragraph:'',
     ''"'' @ paragraphText @ ''"'',
     '''',
     ''Provide either:'',
     ''1. A brief, empathetic commentary (1-2 sentences acknowledging what they wrote)'',
     ''2. A gentle, reflective question to help them think deeper'',
     '''',
     ''Format your response EXACTLY like this:'',
     ''TYPE: commentary'',
     ''TEXT: Your response here'',
     '''',
     ''OR'',
     '''',
     ''TYPE: question'',
     ''TEXT: Your question here'',
     '''',
     ''Keep your response under 50 words. Be warm, supportive, and genuinely curious.'']\<close>

definition fallback_note :: annotation where
  \<open>fallback_note =
     \<lparr>type = ''commentary'',
      text = ''I'm having trouble connecting right now. Try again in a moment.''\<rparr>\<close>

text \<open>The body of the \<open>try\<close> block: an exception leaves it as \<open>Inl\<close>.\<close>

definition generateMarginNote_try :: "collaborator \<Rightarrow> string \<Rightarrow> error + annotation" where
  "generateMarginNote_try model paragraphText =
     (case model 0 (prompt paragraphText) of
        Inl e \<Rightarrow> Inl e
      | Inr responseText \<Rightarrow> Inr (parseResponse responseText))"

text \<open>The whole async function: \<open>Inr\<close> is the value the promise resolves to, \<open>Inl\<close> would be
  a rejection. The \<open>catch\<close> block logs and returns the fallback.\<close>

definition generateMarginNote :: "collaborator \<Rightarrow> string \<Rightarrow> error + annotation" where
  "generateMarginNote model paragraphText =
     (case generateMarginNote_try model paragraphText of
        Inl e \<Rightarrow> Inr fallback_note
      | Inr n \<Rightarrow> Inr n)"

section \<open>The two-stage adaptive client\<close>

text \<open>Stage 1: the prompt that asks the collaborator for the kind of writing.\<close>

definition analysisPrompt :: "string \<Rightarrow> string" where
  \<open>analysisPrompt paragraphText = join_lines
    [''Analyze this text and identify what type of writing it is.'',
     '''',
     ''Text: "'' @ paragraphText @ ''"'',
     '''',
     ''Categorize it as ONE of these types:'',
     ''- journaling (personal reflection, emotions, daily thoughts)'',
     ''- brainstorming (ideas, plans, creative thinking)'',
     ''- technical (code, analysis, problem-solving)'',
     ''- storytelling (narrative, fiction, describing events)'',
     ''- note-taking (facts, lists, information capture)'',
     ''- other (anything else)'',
     '''',
     ''Respond with ONLY the category name, nothing else.'']\<close>

text \<open>Stage 2: one template for each branch of the \<open>switch\<close>.\<close>

definition journaling_prompt :: "string \<Rightarrow> string" where
  \<comment> \<open>case 'journaling'\<close>
  \<open>journaling_prompt paragraphText = join_lines
    [''You are a thoughtful writing companion. The user is journaling.'',
     '''',
     ''For this paragraph:'',
     ''"'' @ paragraphText @ ''"'',
     '''',
     ''Provide either:'',
     ''1. A brief, empathetic commentary (1-2 sentences)'',
     ''2. A gentle, reflective question'',
     '''',
     ''Format your response EXACTLY like this:'',
     ''TYPE: commentary'',
     ''TEXT: Your response here'',
     '''',
     ''OR'',
     '''',
     ''TYPE: question'',
     ''TEXT: Your question here'',
     '''',
     ''Keep it under 50 words. Be warm and curious.'']\<close>

definition brainstorming_prompt :: "string \<Rightarrow> string" where
  \<comment> \<open>case 'brainstorming'\<close>
  \<open>brainstorming_prompt paragraphText = join_lines
    [''You are a creative thinking partner. The user is brainstorming ideas.'',
     '''',
     ''For this paragraph:'',
     ''"'' @ paragraphText @ ''"'',
     '''',
     ''Provide either:'',
     ''1. A brief connection to related ideas or possibilities'',
     ''2. A question that expands the thinking'',
     '''',
     ''Format your response EXACTLY like this:'',
     ''TYPE: commentary'',
     ''TEXT: Your response here'',
     '''',
     ''OR'',
     '''',
     ''TYPE: question'',
     ''TEXT: Your question here'',
     '''',
     ''Keep it under 50 words. Be energizing and idea-generating.'']\<close>

definition technical_prompt :: "string \<Rightarrow> string" where
  \<comment> \<open>case 'technical'\<close>
  \<open>technical_prompt paragraphText = join_lines
    [''You are a technical review assistant. The user is writing technical content.'',
     '''',
     ''For this paragraph:'',
     ''"'' @ paragraphText @ ''"'',
     '''',
     ''Provide either:'',
     ''1. A brief technical observation or connection'',
     ''2. A clarifying question about implementation or edge cases'',
     '''',
     ''Format your response EXACTLY like this:'',
     ''TYPE: commentary'',
     ''TEXT: Your response here'',
     '''',
     ''OR'',
     '''',
     ''TYPE: question'',
     ''TEXT: Your question here'',
     '''',
     ''Keep it under 50 words. Be precise and technically insightful.'']\<close>

definition storytelling_prompt :: "string \<Rightarrow> string" where
  \<comment> \<open>case 'storytelling'\<close>
  \<open>storytelling_prompt paragraphText = join_lines
    [''You are a story development assistant. The user is writing a narrative.'',
     '''',
     ''For this paragraph:'',
     ''"'' @ paragraphText @ ''"'',
     '''',
     ''Provide either:'',
     ''1. A brief observation about character, setting, or plot'',
     ''2. A question about what happens next or character motivation'',
     '''',
     ''Format your response EXACTLY like this:'',
     ''TYPE: commentary'',
     ''TEXT: Your response here'',
     '''',
     ''OR'',
     '''',
     ''TYPE: question'',
     ''TEXT: Your question here'',
     '''',
     ''Keep it under 50 words. Be encouraging and narrative-focused.'']\<close>

definition note_taking_prompt :: "string \<Rightarrow> string" where
  \<comment> \<open>case 'note-taking'\<close>
  \<open>note_taking_prompt paragraphText = join_lines
    [''You are a note organization assistant. The user is capturing information.'',
     '''',
     ''For this paragraph:'',
     ''"'' @ paragraphText @ ''"'',
     '''',
     ''Provide either:'',
     ''1. A brief connection to related concepts or categories'',
     ''2. A question about missing information or next steps'',
     '''',
     ''Format your response EXACTLY like this:'',
     ''TYPE: commentary'',
     ''TEXT: Your response here'',
     '''',
     ''OR'',
     '''',
     ''TYPE: question'',
     ''TEXT: Your question here'',
     '''',
     ''Keep it under 50 words. Be organized and connective.'']\<close>

definition default_prompt :: "string \<Rightarrow> string" where
  \<comment> \<open>default\<close>
  \<open>default_prompt paragraphText = join_lines
    [''You are a supportive writing assistant.'',
     '''',
     ''For this paragraph:'',
     ''"'' @ paragraphText @ ''"'',
     '''',
     ''Provide either:'',
     ''1. A brief, helpful commentary'',
     ''2. A thoughtful question'',
     '''',
     ''Format your response EXACTLY like this:'',
     ''TYPE: commentary'',
     ''TEXT: Your response here'',
     '''',
     ''OR'',
     '''',
     ''TYPE: question'',
     ''TEXT: Your question here'',
     '''',
     ''Keep it under 50 words. Be helpful and clear.'']\<close>

text \<open>The \<open>switch (contentType)\<close>: strict string equality, cases in the order written.\<close>

definition mainPrompt :: "string \<Rightarrow> string \<Rightarrow> string" where
  "mainPrompt contentType paragraphText =
     (if contentType = ''journaling'' then journaling_prompt paragraphText
      else if contentType = ''brainstorming'' then brainstorming_prompt paragraphText
      else if contentType = ''technical'' then technical_prompt paragraphText
      else if contentType = ''storytelling'' then storytelling_prompt paragraphText
      else if contentType = ''note-taking'' then note_taking_prompt paragraphText
      else default_prompt paragraphText)"

definition adaptive_fallback_note :: annotation where
  "adaptive_fallback_note =
     \<lparr>type = ''commentary'', text = ''Unable to generate reflection. Please try again.''\<rparr>"

definition contentType_of :: "string \<Rightarrow> string" where
  \<comment> \<open>\<open>analysisResponse.text().trim().toLowerCase()\<close>\<close>
  "contentType_of analysisText = toLowerCase (trim analysisText)"

definition generateMarginNote_adaptive_try :: "collaborator \<Rightarrow> string \<Rightarrow> error + annotation" where
  "generateMarginNote_adaptive_try model paragraphText =
     (case model 0 (analysisPrompt paragraphText) of
        Inl e \<Rightarrow> Inl e
      | Inr analysisText \<Rightarrow>
          (case model 1 (mainPrompt (contentType_of analysisText) paragraphText) of
             Inl e \<Rightarrow> Inl e
           | Inr responseText \<Rightarrow> Inr (parseResponse responseText)))"

definition generateMarginNote_adaptive :: "collaborator \<Rightarrow> string \<Rightarrow> error + annotation" where
  "generateMarginNote_adaptive model paragraphText =
     (case generateMarginNote_adaptive_try model paragraphText of
        Inl e \<Rightarrow> Inr adaptive_fallback_note
      | Inr n \<Rightarrow> Inr n)"

section \<open>Markers, stated without the search\<close>

text \<open>
  The two patterns once more, as statements about where a marker stands rather than as a
  search. \<open>kind_marker_at k t\<close>: at the start of \<open>t\<close> stands \<open>TYPE:\<close> in any case, then some
  number \<open>n\<close> of white-space characters, then the kind \<open>k\<close> in any case. \<open>kind_found k raw\<close>:
  such a marker stands somewhere in \<open>raw\<close>. \<open>body_after raw\<close>: the text that follows the first
  \<open>TEXT:\<close> of \<open>raw\<close>, if there is one.
\<close>

definition kind_marker_at :: "string \<Rightarrow> string \<Rightarrow> bool" where
  "kind_marker_at k t = (ci_prefix ''TYPE:'' t \<and>
     list_ex (\<lambda>n. list_all is_space (take n (drop 5 t)) \<and> ci_prefix k (drop (5 + n) t))
       [0..<Suc (length t)])"

definition kind_found :: "string \<Rightarrow> string \<Rightarrow> bool" where
  "kind_found k raw = list_ex (kind_marker_at k) (suffixes raw)"

definition marker_at :: "string \<Rightarrow> string option" where
  "marker_at t = (if cs_prefix ''TEXT:'' t then Some (drop 5 t) else None)"

definition body_after :: "string \<Rightarrow> string option" where
  "body_after raw = regex_search marker_at raw"

text \<open>
  The outputs for which the note's text comes out empty: a well-formed output (a type marker
  with a recognized kind, and a body marker with at least one character after it) in which
  only white space follows the body marker, or any other output that is all white space.
\<close>

definition empty_note_output :: "string \<Rightarrow> bool" where
  "empty_note_output raw =
     (case body_after raw of
        None \<Rightarrow> list_all is_space raw
      | Some v \<Rightarrow>
          if v \<noteq> [] \<and> (kind_found ''commentary'' raw \<or> kind_found ''question'' raw)
          then list_all is_space v else list_all is_space raw)"

text \<open>A collaborator that answers every prompt with the empty string.\<close>

definition silent_model :: collaborator where
  "silent_model n p = Inr []"

section \<open>The classification labels, as the specification has them\<close>

text \<open>
  The specification's closed enumeration of six labels, its rule for the Stage-1 output
  (trim, lower-case, exact match with a label, otherwise \<open>other\<close>) and its table of one
  template for each label. These three follow the specification's words; the templates
  themselves are the program's.
\<close>

datatype label = Journaling | Brainstorming | Technical | Storytelling | NoteTaking | Other

fun label_name :: "label \<Rightarrow> string" where
  "label_name Journaling = ''journaling''"
| "label_name Brainstorming = ''brainstorming''"
| "label_name Technical = ''technical''"
| "label_name Storytelling = ''storytelling''"
| "label_name NoteTaking = ''note-taking''"
| "label_name Other = ''other''"

definition classify_spec :: "string \<Rightarrow> label" where
  "classify_spec raw =
     (case find (\<lambda>l. label_name l = toLowerCase (trim raw))
             [Journaling, Brainstorming, Technical, Storytelling, NoteTaking, Other] of
        Some l \<Rightarrow> l
      | None \<Rightarrow> Other)"

fun strategy_template_spec :: "label \<Rightarrow> string \<Rightarrow> string" where
  "strategy_template_spec Journaling = journaling_prompt"
| "strategy_template_spec Brainstorming = brainstorming_prompt"
| "strategy_template_spec Technical = technical_prompt"
| "strategy_template_spec Storytelling = storytelling_prompt"
| "strategy_template_spec NoteTaking = note_taking_prompt"
| "strategy_template_spec Other = default_prompt"

section \<open>Segmentation (App.jsx, line 53)\<close>

text \<open>
  \<open>content.split('\n\n')\<close>: the pieces between the occurrences of two line feeds, found from
  left to right without overlap; a string without the separator is its own single piece,
  the empty string included.
\<close>

fun split_blank :: "string \<Rightarrow> string list" where
  "split_blank [] = [[]]"
| "split_blank [c] = [[c]]"
| "split_blank (c # d # cs) =
     (if c = CHR ''\<newline>'' \<and> d = CHR ''\<newline>'' then [] # split_blank cs
      else (case split_blank (d # cs) of
              [] \<Rightarrow> [[c]]
            | p # ps \<Rightarrow> (c # p) # ps))"

text \<open>\<open>content.split('\n\n').filter(p => p.trim() !== '')\<close>; a paragraph's index is its
  position in this list.\<close>

definition paragraphs :: "string \<Rightarrow> string list" where
  "paragraphs content = filter (\<lambda>p. trim p \<noteq> []) (split_blank content)"

text \<open>The segmentation as the specification words it: split, trim every entry, discard the
  entries that are blank after trimming.\<close>

definition segment_spec :: "string \<Rightarrow> string list" where
  "segment_spec document = filter (\<lambda>p. p \<noteq> []) (map trim (split_blank document))"

text \<open>The inverse of the split: the pieces with the separator put back between them.\<close>

fun join_blank :: "string list \<Rightarrow> string" where
  "join_blank [] = []"
| "join_blank [p] = p"
| "join_blank (p # ps) = p @ ''\<newline>\<newline>'' @ join_blank ps"

section \<open>The note store and the note-lifecycle handler (App.jsx, lines 142-183)\<close>

text \<open>An entry of \<open>marginNotes\<close>: \<open>{text, type, isVisible, isLoading}\<close>. The state
  \<open>marginNotes\<close> is an object keyed by paragraph index; a missing key is \<open>None\<close>.\<close>

record stored_note = annotation +
  isVisible :: bool
  isLoading :: bool

type_synonym note_store = "nat \<Rightarrow> stored_note option"

definition loading_note :: stored_note where
  "loading_note =
     \<lparr>type = ''commentary'', text = ''Thinking...'', isVisible = True, isLoading = True\<rparr>"

definition resolved_note :: "annotation \<Rightarrow> stored_note" where
  "resolved_note n = \<lparr>type = type n, text = text n, isVisible = True, isLoading = False\<rparr>"

text \<open>
  \<open>generateMarginNoteForParagraph\<close> is an async function: it runs up to its \<open>await\<close> when
  it is called, and its continuation runs when the client's promise settles.

  \<open>handler_start\<close> is the first part. The two early returns read \<open>marginNotes\<close> as the
  render that created the function saw it (\<open>seen\<close>); the update
  \<open>setMarginNotes(prev => ...)\<close> applies to the state of the moment (\<open>prev\<close>). \<open>None\<close>: the
  function returned early and no request was made.
\<close>

definition handler_start :: "note_store \<Rightarrow> note_store \<Rightarrow> nat \<Rightarrow> string \<Rightarrow> note_store option" where
  "handler_start seen prev paragraphIndex paragraphText =
     (if length (trim paragraphText) < 10 then None
      else if seen paragraphIndex \<noteq> None then None
      else Some (prev(paragraphIndex \<mapsto> loading_note)))"

text \<open>
  \<open>handler_finish\<close> is the continuation, applied to the state of that later moment: with
  the client's value it stores the note; in the \<open>catch\<close> block, which a rejection of the
  client would reach, it deletes the entry.
\<close>

definition handler_finish :: "error + annotation \<Rightarrow> nat \<Rightarrow> note_store \<Rightarrow> note_store" where
  "handler_finish outcome paragraphIndex prev =
     (case outcome of
        Inr n \<Rightarrow> prev(paragraphIndex \<mapsto> resolved_note n)
      | Inl e \<Rightarrow> prev(paragraphIndex := None))"

section \<open>The trigger on the paragraph count (App.jsx, lines 56-72)\<close>

text \<open>
  The body of the effect up to the call of the handler: \<open>prev\<close> is
  \<open>prevParagraphCount.current\<close>. \<open>targetIndex\<close> may be negative, so it is an \<open>int\<close>; the
  test \<open>paragraphs[targetIndex]\<close> is the truthiness of a string, which is false for the
  empty string only. The result is the call made, if any.
\<close>

definition trigger_target :: "nat \<Rightarrow> string list \<Rightarrow> (nat \<times> string) option" where
  "trigger_target prev ps =
     (if length ps > prev then
        (let targetIndex = int (length ps) - 2 in
         if targetIndex \<ge> 0 then
           (if ps ! nat targetIndex \<noteq> [] then Some (nat targetIndex, ps ! nat targetIndex)
            else None)
         else None)
      else None)"

text \<open>
  The state of the component: the two pieces of React state, the ref with the previous
  count, the value of the effect's dependency \<open>paragraphs.length\<close> at its last run, and the
  requests that wait for the client, each with its paragraph index and text.
\<close>

record app =
  content :: string
  marginNotes :: note_store
  prevParagraphCount :: nat
  effectDeps :: nat
  inFlight :: "(nat \<times> string) list"

text \<open>
  After a render the effect runs only if \<open>paragraphs.length\<close> differs from its value at
  the last run. It calls the handler for the target, which may return early, and stores
  the count. The handler it calls was created by the render that has just been committed,
  so the \<open>marginNotes\<close> it reads is the state of that render. The second component is
  the request that was fired, if any.
\<close>

definition run_effect :: "app \<Rightarrow> app \<times> (nat \<times> string) option" where
  "run_effect st =
     (let ps = paragraphs (content st) in
      if effectDeps st = length ps then (st, None)
      else
        (let fired =
               (case trigger_target (prevParagraphCount st) ps of
                  None \<Rightarrow> None
                | Some (i, t) \<Rightarrow>
                    (case handler_start (marginNotes st) (marginNotes st) i t of
                       None \<Rightarrow> None
                     | Some pending \<Rightarrow> Some (pending, (i, t))));
             st1 = (case fired of
                      None \<Rightarrow> st
                    | Some (pending, req) \<Rightarrow>
                        st\<lparr>marginNotes := pending, inFlight := inFlight st @ [req]\<rparr>)
         in (st1\<lparr>prevParagraphCount := length ps, effectDeps := length ps\<rparr>,
             map_option snd fired)))"

text \<open>
  The events of the component. \<open>Edit s\<close>: the content becomes \<open>s\<close> (typing, or the saved
  content restored at startup), the component renders and its effects run. \<open>Settle k model\<close>:
  the client's promise of the \<open>k\<close>-th waiting request settles, the collaborator having
  behaved as \<open>model\<close>; the continuation of the handler runs.
\<close>

datatype event = Edit string | Settle nat collaborator

fun step :: "event \<Rightarrow> app \<Rightarrow> app \<times> (nat \<times> string) option" where
  "step (Edit s) st = run_effect (st\<lparr>content := s\<rparr>)"
| "step (Settle k model) st =
     (if k < length (inFlight st) then
        (case inFlight st ! k of
           (i, t) \<Rightarrow>
             (st\<lparr>marginNotes := handler_finish (generateMarginNote model t) i (marginNotes st),
                 inFlight := take k (inFlight st) @ drop (Suc k) (inFlight st)\<rparr>, None))
      else (st, None))"

text \<open>A run: the final state and the requests fired on the way, in order.\<close>

fun run :: "event list \<Rightarrow> app \<Rightarrow> app \<times> (nat \<times> string) list" where
  "run [] st = (st, [])"
| "run (e # es) st =
     (case step e st of
        (st1, fired) \<Rightarrow>
          (case run es st1 of
             (st2, more_fired) \<Rightarrow>
               (st2, (case fired of None \<Rightarrow> [] | Some r \<Rightarrow> [r]) @ more_fired)))"

text \<open>
  The component once mounted: the first render had empty content, so the effect ran with
  no paragraph and stored the count 0; \<open>saved\<close> is the note mapping restored from storage
  (empty when nothing was stored).
\<close>

definition mounted :: "note_store \<Rightarrow> app" where
  "mounted saved =
     \<lparr>content = [], marginNotes = saved, prevParagraphCount = 0, effectDeps = 0, inFlight = []\<rparr>"

section \<open>Paragraph positions (App.jsx, lines 75-119)\<close>

text \<open>
  What the function reads from the page: the top padding and the line height of the
  textarea, and \<open>measure\<close>, the \<open>offsetHeight\<close> of the hidden measuring element once its
  text is set to a paragraph. Pixel values are floating-point numbers in the program and
  real numbers here.
\<close>

record layout =
  paddingTop :: real
  lineHeight :: real
  measure :: "string \<Rightarrow> real"

text \<open>
  The \<open>forEach\<close> over \<open>content.split('\n\n')\<close>: \<open>index\<close> is the position in the unfiltered
  split, \<open>currentY\<close> and \<open>positions\<close> are the two variables the callback updates. A blank
  entry is skipped by the early \<open>return\<close> of the callback, and its index with it.
\<close>

fun positions_loop ::
  "layout \<Rightarrow> nat \<Rightarrow> string list \<Rightarrow> real \<Rightarrow> (nat \<Rightarrow> real option) \<Rightarrow> (nat \<Rightarrow> real option)" where
  "positions_loop m index [] currentY positions = positions"
| "positions_loop m index (para # rest) currentY positions =
     (if trim para = [] then positions_loop m (Suc index) rest currentY positions
      else positions_loop m (Suc index) rest
             (currentY + (measure m para + lineHeight m * 2))
             (positions(index \<mapsto> currentY)))"

text \<open>\<open>contentNow\<close> is the state \<open>content\<close> the function reads. \<open>None\<close>:
  \<open>editorRef.current\<close> is null and the function returns without setting the state.\<close>

definition calculateParagraphPositions :: "layout option \<Rightarrow> string \<Rightarrow> (nat \<Rightarrow> real option) option" where
  "calculateParagraphPositions editor contentNow =
     (case editor of
        None \<Rightarrow> None
      | Some m \<Rightarrow> Some (positions_loop m 0 (split_blank contentNow) (paddingTop m) Map.empty))"

text \<open>A layout for examples: 60 pixels of padding, lines of 28 pixels, every paragraph
  measured as one line.\<close>

definition example_layout :: layout where
  "example_layout = \<lparr>paddingTop = 60, lineHeight = 28, measure = (\<lambda>para. 28)\<rparr>"

section \<open>JSON.parse\<close>

text \<open>
  \<open>JSON.parse\<close> belongs to the language, not to the repository; it is modelled after the
  JSON grammar as far as the shape of a text goes. A value keeps its strings and numbers
  as they are written (the escapes of a string are checked but not decoded, a number is
  not converted to a floating-point value). A text outside the grammar is a \<open>SyntaxError\<close>.
\<close>

datatype json =
    JNull
  | JBool bool
  | JNumber string
  | JString string
  | JArray "json list"
  | JObject "(string \<times> json) list"

datatype token = LBrace | RBrace | LBracket | RBracket | Comma | Colon
  | TString string | TWord string

definition json_ws :: "char \<Rightarrow> bool" where
  "json_ws c = (c = CHR 0x20 \<or> c = CHR 0x09 \<or> c = CHR 0x0A \<or> c = CHR 0x0D)"

definition is_digit :: "char \<Rightarrow> bool" where
  "is_digit c = (48 \<le> (of_char c :: nat) \<and> (of_char c :: nat) \<le> 57)"

definition is_hex :: "char \<Rightarrow> bool" where
  "is_hex c = (let n = (of_char c :: nat) in
     (48 \<le> n \<and> n \<le> 57) \<or> (65 \<le> n \<and> n \<le> 70) \<or> (97 \<le> n \<and> n \<le> 102))"

text \<open>The characters of a literal name or a number: letters, digits, sign and point.\<close>

definition is_word_char :: "char \<Rightarrow> bool" where
  "is_word_char c = (let n = (of_char c :: nat) in
     (48 \<le> n \<and> n \<le> 57) \<or> (65 \<le> n \<and> n \<le> 90) \<or> (97 \<le> n \<and> n \<le> 122) \<or>
     c = CHR ''+'' \<or> c = CHR ''-'' \<or> c = CHR ''.'')"

text \<open>
  \<open>string_length s\<close>: \<open>s\<close> starts right after an opening quote; the result is the number of
  characters up to and including the closing quote. No control character may stand in a
  string, and a backslash must start one of the escapes of the grammar.
\<close>

fun string_length :: "string \<Rightarrow> nat option" where
  "string_length [] = None"
| "string_length (c # cs) =
     (if c = CHR 0x22 then Some 1
      else if c = CHR 0x5C then
        (case cs of
           [] \<Rightarrow> None
         | e # rest \<Rightarrow>
             if e = CHR 0x22 \<or> e = CHR 0x5C \<or> e = CHR ''/'' \<or> e = CHR ''b'' \<or> e = CHR ''f'' \<or>
                e = CHR ''n'' \<or> e = CHR ''r'' \<or> e = CHR ''t''
             then map_option (\<lambda>n. n + 2) (string_length rest)
             else if e = CHR ''u'' \<and> 4 \<le> length rest \<and> list_all is_hex (take 4 rest)
             then map_option (\<lambda>n. n + 6) (string_length (drop 4 rest))
             else None)
      else if (of_char c :: nat) < 32 then None
      else map_option Suc (string_length cs))"

text \<open>A number: an optional minus, an integer part without a leading zero, an optional
  fraction, an optional exponent, and nothing more.\<close>

definition number_int :: "string \<Rightarrow> string option" where
  "number_int s =
     (case s of
        [] \<Rightarrow> None
      | c # r \<Rightarrow>
          if c = CHR ''0'' then Some r
          else if is_digit c then Some (dropWhile is_digit r)
          else None)"

definition number_frac :: "string \<Rightarrow> string option" where
  "number_frac s =
     (case s of
        [] \<Rightarrow> Some s
      | c # r \<Rightarrow>
          if c = CHR ''.'' then
            (case r of
               [] \<Rightarrow> None
             | d # r1 \<Rightarrow> if is_digit d then Some (dropWhile is_digit r1) else None)
          else Some s)"

definition number_exp :: "string \<Rightarrow> string option" where
  "number_exp s =
     (case s of
        [] \<Rightarrow> Some s
      | c # r \<Rightarrow>
          if c = CHR ''e'' \<or> c = CHR ''E'' then
            (let r1 = (case r of
                         [] \<Rightarrow> r
                       | sg # r2 \<Rightarrow> if sg = CHR ''+'' \<or> sg = CHR ''-'' then r2 else r)
             in case r1 of
                  [] \<Rightarrow> None
                | d # r3 \<Rightarrow> if is_digit d then Some (dropWhile is_digit r3) else None)
          else Some s)"

definition is_number :: "string \<Rightarrow> bool" where
  "is_number s =
     (let s1 = (case s of [] \<Rightarrow> s | c # r \<Rightarrow> if c = CHR ''-'' then r else s) in
      case number_int s1 of
        None \<Rightarrow> False
      | Some r1 \<Rightarrow>
          (case number_frac r1 of
             None \<Rightarrow> False
           | Some r2 \<Rightarrow> number_exp r2 = Some []))"

text \<open>The tokens of a text, or \<open>None\<close> where no token can start or a string does not end.
  A literal name or a number is read as the longest run of word characters and checked
  by the parser.\<close>

fun tokens :: "string \<Rightarrow> token list option" where
  "tokens [] = Some []"
| "tokens (c # cs) =
     (if json_ws c then tokens cs
      else if c = CHR ''{'' then map_option ((#) LBrace) (tokens cs)
      else if c = CHR ''}'' then map_option ((#) RBrace) (tokens cs)
      else if c = CHR ''['' then map_option ((#) LBracket) (tokens cs)
      else if c = CHR '']'' then map_option ((#) RBracket) (tokens cs)
      else if c = CHR '','' then map_option ((#) Comma) (tokens cs)
      else if c = CHR '':'' then map_option ((#) Colon) (tokens cs)
      else if c = CHR 0x22 then
        (case string_length cs of
           None \<Rightarrow> None
         | Some n \<Rightarrow> map_option ((#) (TString (take (n - 1) cs))) (tokens (drop n cs)))
      else if is_word_char c then
        (let w = takeWhile is_word_char cs
         in map_option ((#) (TWord (c # w))) (tokens (drop (length w) cs)))
      else None)"

text \<open>
  The parser reads the tokens one by one and keeps the containers that are still open on
  a stack: an array with the elements read so far, an object with its members and the
  key that waits for its value.
\<close>

datatype frame = FArray "json list" | FObject "(string \<times> json) list" string

datatype pstate =
    ExpectValue "frame list"
  | ArrayStart "frame list"
  | ObjectStart "frame list"
  | AfterElement "json list" "frame list"
  | AfterMember "(string \<times> json) list" "frame list"
  | ExpectKey "(string \<times> json) list" "frame list"
  | ExpectColon "(string \<times> json) list" string "frame list"
  | Done json

text \<open>A value is complete: it is the whole text, or it goes into the innermost open
  container.\<close>

fun complete :: "json \<Rightarrow> frame list \<Rightarrow> pstate" where
  "complete v [] = Done v"
| "complete v (FArray items # stack) = AfterElement (items @ [v]) stack"
| "complete v (FObject members key # stack) = AfterMember (members @ [(key, v)]) stack"

definition word_value :: "string \<Rightarrow> json option" where
  "word_value w =
     (if w = ''null'' then Some JNull
      else if w = ''true'' then Some (JBool True)
      else if w = ''false'' then Some (JBool False)
      else if is_number w then Some (JNumber w)
      else None)"

fun start_value :: "token \<Rightarrow> frame list \<Rightarrow> pstate option" where
  "start_value LBrace stack = Some (ObjectStart stack)"
| "start_value LBracket stack = Some (ArrayStart stack)"
| "start_value (TString s) stack = Some (complete (JString s) stack)"
| "start_value (TWord w) stack = map_option (\<lambda>v. complete v stack) (word_value w)"
| "start_value _ stack = None"

fun pstep :: "pstate \<Rightarrow> token \<Rightarrow> pstate option" where
  "pstep (ExpectValue stack) t = start_value t stack"
| "pstep (ArrayStart stack) t =
     (if t = RBracket then Some (complete (JArray []) stack)
      else start_value t (FArray [] # stack))"
| "pstep (ObjectStart stack) t =
     (case t of
        RBrace \<Rightarrow> Some (complete (JObject []) stack)
      | TString k \<Rightarrow> Some (ExpectColon [] k stack)
      | _ \<Rightarrow> None)"
| "pstep (AfterElement items stack) t =
     (case t of
        Comma \<Rightarrow> Some (ExpectValue (FArray items # stack))
      | RBracket \<Rightarrow> Some (complete (JArray items) stack)
      | _ \<Rightarrow> None)"
| "pstep (AfterMember members stack) t =
     (case t of
        Comma \<Rightarrow> Some (ExpectKey members stack)
      | RBrace \<Rightarrow> Some (complete (JObject members) stack)
      | _ \<Rightarrow> None)"
| "pstep (ExpectKey members stack) t =
     (case t of TString k \<Rightarrow> Some (ExpectColon members k stack) | _ \<Rightarrow> None)"
| "pstep (ExpectColon members k stack) t =
     (if t = Colon then Some (ExpectValue (FObject members k # stack)) else None)"
| "pstep (Done v) t = None"

fun parse_tokens :: "pstate \<Rightarrow> token list \<Rightarrow> json option" where
  "parse_tokens st [] = (case st of Done v \<Rightarrow> Some v | _ \<Rightarrow> None)"
| "parse_tokens st (t # ts) =
     (case pstep st t of None \<Rightarrow> None | Some st1 \<Rightarrow> parse_tokens st1 ts)"

definition JSON_parse :: "string \<Rightarrow> error + json" where
  "JSON_parse s =
     (case tokens s of
        None \<Rightarrow> Inl SyntaxError
      | Some ts \<Rightarrow>
          (case parse_tokens (ExpectValue []) ts of
             None \<Rightarrow> Inl SyntaxError
           | Some v \<Rightarrow> Inr v))"

section \<open>Loading at startup (App.jsx, lines 29-39)\<close>

text \<open>
  The two arguments are what \<open>localStorage.getItem\<close> returns for the two keys, \<open>None\<close> for
  \<open>null\<close>. A stored string is truthy unless it is empty. The result is the pair of state
  updates the effect makes (\<open>None\<close>: the state is left as it is), or the exception that
  leaves the effect: nothing in it catches what \<open>JSON.parse\<close> throws.
\<close>

definition load_saved ::
  "string option \<Rightarrow> string option \<Rightarrow> error + (string option \<times> json option)" where
  "load_saved savedContent savedNotes =
     (let newContent = (case savedContent of
                          None \<Rightarrow> None
                        | Some c \<Rightarrow> if c \<noteq> [] then Some c else None)
      in case savedNotes of
           None \<Rightarrow> Inr (newContent, None)
         | Some s \<Rightarrow>
             if s \<noteq> [] then
               (case JSON_parse s of
                  Inl e \<Rightarrow> Inl e
                | Inr v \<Rightarrow> Inr (newContent, Some v))
             else Inr (newContent, None))"

section \<open>Example inputs\<close>

text \<open>A collaborator that names the kind of writing at its first call and answers in the
  required format at every later call.\<close>

definition scripted_model :: collaborator where
  \<open>scripted_model n p =
     (if n = 0 then Inr ''Journaling''
      else Inr ''TYPE: question\<newline>TEXT: Why?'')\<close>

text \<open>A collaborator that rejects every call.\<close>

definition failing_model :: collaborator where
  "failing_model n p = Inl CollaboratorError"

text \<open>A collaborator that names the kind of writing at its first call and rejects every
  later call.\<close>

definition half_failing_model :: collaborator where
  "half_failing_model n p = (if n = 0 then Inr ''journaling'' else Inl CollaboratorError)"

section \<open>The first type marker\<close>

text \<open>
  The kind of the first type marker of an output: the start positions are taken from left
  to right, and the first one at which a type marker with a recognized kind stands gives
  its kind. At one position only one of the two kinds can stand.
\<close>

definition first_kind :: "string \<Rightarrow> string option" where
  "first_kind raw =
     (case find (\<lambda>t. kind_marker_at ''commentary'' t \<or> kind_marker_at ''question'' t)
             (rev (suffixes raw)) of
        None \<Rightarrow> None
      | Some t \<Rightarrow> Some (if kind_marker_at ''commentary'' t then ''commentary'' else ''question''))"

section \<open>A reload of the page\<close>

text \<open>
  The effect of App.jsx, lines 47-49, writes \<open>marginNotes\<close> to storage after every change
  of it, as \<open>JSON.stringify\<close> prints it; when the page is loaded again the component mounts
  and the effect of lines 29-39 restores what \<open>JSON.parse\<close> reads back, which is that
  mapping. The requests of the old page are gone with it. The restored content arrives as
  an \<open>Edit\<close>.
\<close>

definition reload :: "app \<Rightarrow> app" where
  "reload st = mounted (marginNotes st)"

text \<open>A page that was reloaded while the request for its first paragraph was waiting.\<close>

definition interrupted_page :: app where
  "interrupted_page = reload (fst (run [Edit ''aaaaaaaaaa\<newline>\<newline>b''] (mounted Map.empty)))"

section \<open>The invariant of the waiting requests\<close>


section \<open>Properties of the parser\<close>

lemma lower_canon: "lower_char (canonicalize x) = lower_char x"
proof -
  have r: "of_char x < (256::nat)" by simp
  show ?thesis
    unfolding lower_char_def canonicalize_def Let_def
    using r by auto
qed

lemma ci_prefix_lower:
  assumes "ci_prefix p r"
  shows "toLowerCase (take (length p) r) = toLowerCase p"
proof -
  from assms have e: "map canonicalize (take (length p) r) = map canonicalize p"
    by (simp add: ci_prefix_def)
  have "map lower_char xs = map lower_char (map canonicalize xs)" for xs
    by (simp add: lower_canon)
  then show ?thesis unfolding toLowerCase_def using e by metis
qed

lemma type_at_kind:
  assumes "type_at s = Some t"
  shows "toLowerCase t = ''commentary'' \<or> toLowerCase t = ''question''"
proof -
  define r where "r = dropWhile is_space (drop 5 s)"
  have lc: "toLowerCase ''commentary'' = ''commentary''" 
    by (simp add: toLowerCase_def lower_char_def)
  have lq: "toLowerCase ''question'' = ''question''" 
    by (simp add: toLowerCase_def lower_char_def)
  from assms consider (c) "ci_prefix ''commentary'' r" "t = take 10 r"
    | (q) "ci_prefix ''question'' r" "t = take 8 r"
    unfolding type_at_def Let_def r_def by (auto split: if_splits)
  then show ?thesis
  proof cases
    case c
    have l: "length ''commentary'' = 10" by simp
    from ci_prefix_lower[OF c(1)] have "toLowerCase (take 10 r) = toLowerCase ''commentary''"
      unfolding l .
    then show ?thesis using c(2) lc by simp
  next
    case q
    have l: "length ''question'' = 8" by simp
    from ci_prefix_lower[OF q(1)] have "toLowerCase (take 8 r) = toLowerCase ''question''"
      unfolding l .
    then show ?thesis using q(2) lq by simp
  qed
qed

lemma regex_search_Some:
  "regex_search m s = Some r \<Longrightarrow> \<exists>t \<in> set (suffixes s). m t = Some r"
  by (induction s) (auto split: option.splits)

lemma regex_search_None:
  "regex_search m s = None \<longleftrightarrow> (\<forall>t \<in> set (suffixes s). m t = None)"
  by (induction s) (auto split: option.splits)

lemma parseResponse_type:
  "type (parseResponse raw) = ''commentary'' \<or> type (parseResponse raw) = ''question''"
proof (cases "regex_search type_at raw")
  case None
  then show ?thesis by (simp add: parseResponse_def)
next
  case (Some t)
  from regex_search_Some[OF Some] obtain u where "type_at u = Some t" by blast
  then have k: "toLowerCase t = ''commentary'' \<or> toLowerCase t = ''question''"
    by (rule type_at_kind)
  show ?thesis
  proof (cases "regex_search text_at raw")
    case None
    then show ?thesis using Some by (simp add: parseResponse_def)
  next
    case (Some b)
    then show ?thesis using \<open>regex_search type_at raw = Some t\<close> k
      by (simp add: parseResponse_def)
  qed
qed

lemma trim_Nil_iff: "trim s = [] \<longleftrightarrow> list_all is_space s"
proof
  assume "trim s = []"
  then have a: "\<forall>x \<in> set (dropWhile is_space s). is_space x"
    by (simp add: trim_def dropWhile_eq_Nil_conv)
  have "dropWhile is_space s = []"
  proof (rule ccontr)
    assume n: "dropWhile is_space s \<noteq> []"
    then have "\<not> is_space (hd (dropWhile is_space s))" by (rule hd_dropWhile)
    moreover have "hd (dropWhile is_space s) \<in> set (dropWhile is_space s)" using n by simp
    ultimately show False using a by blast
  qed
  then show "list_all is_space s" by (simp add: dropWhile_eq_Nil_conv list_all_iff)
next
  assume "list_all is_space s"
  then have d: "dropWhile is_space s = []" by (simp add: dropWhile_eq_Nil_conv list_all_iff)
  show "trim s = []" unfolding trim_def d by simp
qed

lemma trim_dropWhile: "trim (dropWhile is_space s) = trim s"
  by (simp add: trim_def)

lemma text_at_Some:
  "text_at t = (case marker_at t of None \<Rightarrow> None
     | Some v \<Rightarrow> if v = [] then None
         else Some (if dropWhile is_space v = [] then [last v] else dropWhile is_space v))"
  by (simp add: text_at_def marker_at_def Let_def)

lemma short_no_marker: "length s < 5 \<Longrightarrow> regex_search text_at s = None"
  by (induction s) (auto simp: text_at_def cs_prefix_def)

lemma text_search:
  "regex_search text_at raw = (case body_after raw of None \<Rightarrow> None
     | Some v \<Rightarrow> if v = [] then None
         else Some (if dropWhile is_space v = [] then [last v] else dropWhile is_space v))"
  unfolding body_after_def
proof (induction raw)
  case Nil
  then show ?case by (simp add: text_at_Some[of "[]"])
next
  case (Cons c cs)
  show ?case
  proof (cases "marker_at (c # cs)")
    case None
    then show ?thesis using Cons by (simp add: text_at_Some[of "c # cs"])
  next
    case (Some v)
    show ?thesis
    proof (cases "v = []")
      case True
      with Some have "length (c # cs) = 5"
        by (auto simp: marker_at_def cs_prefix_def split: if_splits)
      then have "regex_search text_at cs = None" by (intro short_no_marker) simp
      then show ?thesis using Some True by (simp add: text_at_Some[of "c # cs"])
    next
      case False
      then show ?thesis using Some by (simp add: text_at_Some[of "c # cs"])
    qed
  qed
qed

lemma capture_trim:
  assumes "v \<noteq> []"
  shows "trim (if dropWhile is_space v = [] then [last v] else dropWhile is_space v) = trim v"
proof (cases "dropWhile is_space v = []")
  case True
  then have a: "\<forall>x \<in> set v. is_space x" by (simp add: dropWhile_eq_Nil_conv)
  then have "list_all is_space v" by (simp add: list_all_iff)
  then have "trim v = []" by (simp add: trim_Nil_iff)
  moreover have "is_space (last v)" using a assms by simp
  then have "trim [last v] = []" by (simp add: trim_Nil_iff)
  ultimately show ?thesis using True by simp
next
  case False
  then show ?thesis by (simp only: if_False trim_dropWhile)
qed

lemma canon_space: "is_space x \<Longrightarrow> canonicalize x = x"
  unfolding is_space_def canonicalize_def Let_def by auto

lemma canon_C_Q: "canonicalize x = CHR ''C'' \<or> canonicalize x = CHR ''Q'' \<Longrightarrow> \<not> is_space x"
proof
  assume a: "canonicalize x = CHR ''C'' \<or> canonicalize x = CHR ''Q''" and s: "is_space x"
  from s have "canonicalize x = x" by (rule canon_space)
  with a have "x = CHR ''C'' \<or> x = CHR ''Q''" by simp
  with s show False by (auto simp: is_space_def)
qed

lemma canon_c_q:
  "canonicalize (CHR ''c'') = CHR ''C''" "canonicalize (CHR ''q'') = CHR ''Q''"
  by code_simp+

lemma kind_starts:
  assumes "ci_prefix k r" and "k = ''commentary'' \<or> k = ''question''"
  shows "r \<noteq> [] \<and> \<not> is_space (hd r)"
proof -
  from assms(2) have k: "k \<noteq> []" by auto
  from assms(1) have len: "length k \<le> length r"
    and eq: "map canonicalize (take (length k) r) = map canonicalize k"
    by (simp_all add: ci_prefix_def)
  from k len have r: "r \<noteq> []" by auto
  from k r have t: "take (length k) r \<noteq> []" by simp
  have "canonicalize (hd r) = hd (map canonicalize (take (length k) r))"
    using t r k by (simp add: hd_map hd_take)
  also have "\<dots> = canonicalize (hd k)" using eq k by (simp add: hd_map)
  finally have "canonicalize (hd r) = CHR ''C'' \<or> canonicalize (hd r) = CHR ''Q''"
    using assms(2) canon_c_q by auto
  then have "\<not> is_space (hd r)" by (rule canon_C_Q)
  with r show ?thesis by simp
qed

lemma drop_spaces:
  assumes "list_all is_space (take n s)" and "drop n s \<noteq> []" and "\<not> is_space (hd (drop n s))"
  shows "dropWhile is_space s = drop n s"
proof -
  obtain y ys where d: "drop n s = y # ys" using assms(2) by (cases "drop n s") auto
  have "dropWhile is_space s = dropWhile is_space (take n s @ drop n s)" by simp
  also have "\<dots> = dropWhile is_space (drop n s)"
    using assms(1) by (intro dropWhile_append2) (simp add: list_all_iff)
  also have "\<dots> = drop n s" using d assms(3) by simp
  finally show ?thesis .
qed

lemma kind_marker_at_iff:
  assumes k: "k = ''commentary'' \<or> k = ''question''"
  shows "kind_marker_at k t \<longleftrightarrow>
         ci_prefix ''TYPE:'' t \<and> ci_prefix k (dropWhile is_space (drop 5 t))"
proof
  assume "kind_marker_at k t"
  then obtain n where T: "ci_prefix ''TYPE:'' t"
    and sp: "list_all is_space (take n (drop 5 t))"
    and kp0: "ci_prefix k (drop (5 + n) t)"
    unfolding kind_marker_at_def list_ex_iff by blast
  have "drop (5 + n) t = drop n (drop 5 t)" by (simp add: add.commute)
  with kp0 have kp: "ci_prefix k (drop n (drop 5 t))" by simp
  from kind_starts[OF kp k] have "drop n (drop 5 t) \<noteq> []" "\<not> is_space (hd (drop n (drop 5 t)))"
    by simp_all
  with sp have "dropWhile is_space (drop 5 t) = drop n (drop 5 t)" by (intro drop_spaces)
  with T kp show "ci_prefix ''TYPE:'' t \<and> ci_prefix k (dropWhile is_space (drop 5 t))" by simp
next
  assume a: "ci_prefix ''TYPE:'' t \<and> ci_prefix k (dropWhile is_space (drop 5 t))"
  define n where "n = length (takeWhile is_space (drop 5 t))"
  have n1: "n \<le> length t" unfolding n_def
    by (rule order_trans[OF length_takeWhile_le]) simp
  have n2: "take n (drop 5 t) = takeWhile is_space (drop 5 t)"
    unfolding n_def by (rule takeWhile_eq_take[symmetric])
  have n3: "drop n (drop 5 t) = dropWhile is_space (drop 5 t)"
    unfolding n_def by (rule dropWhile_eq_drop[symmetric])
  have "list_all is_space (take n (drop 5 t))" unfolding n2
    by (simp add: list_all_iff) (meson set_takeWhileD)
  moreover have "drop (5 + n) t = drop n (drop 5 t)" by (simp add: add.commute)
  then have "ci_prefix k (drop (5 + n) t)" using a n3 by simp
  moreover have "n \<in> set [0..<Suc (length t)]" using n1 by auto
  ultimately show "kind_marker_at k t" using a
    unfolding kind_marker_at_def list_ex_iff by blast
qed

lemma type_at_markers:
  "type_at t =
     (if kind_marker_at ''commentary'' t then Some (take 10 (dropWhile is_space (drop 5 t)))
      else if kind_marker_at ''question'' t then Some (take 8 (dropWhile is_space (drop 5 t)))
      else None)"
  by (simp add: type_at_def Let_def kind_marker_at_iff)

lemma type_at_found:
  assumes "type_at t = Some x"
  shows "kind_marker_at (toLowerCase x) t"
proof -
  have l1: "length ''commentary'' = 10" and l2: "length ''question'' = 8" by simp_all
  have lc: "toLowerCase ''commentary'' = ''commentary''"
    and lq: "toLowerCase ''question'' = ''question''"
    by (simp_all add: toLowerCase_def lower_char_def)
  show ?thesis
  proof (cases "kind_marker_at ''commentary'' t")
    case True
    then have p: "ci_prefix ''commentary'' (dropWhile is_space (drop 5 t))"
      by (simp add: kind_marker_at_iff)
    from True assms have "x = take 10 (dropWhile is_space (drop 5 t))"
      by (simp add: type_at_markers)
    with ci_prefix_lower[OF p] have "toLowerCase x = ''commentary''" unfolding l1 lc by simp
    with True show ?thesis by simp
  next
    case False
    with assms have q: "kind_marker_at ''question'' t"
      by (simp add: type_at_markers split: if_splits)
    then have p: "ci_prefix ''question'' (dropWhile is_space (drop 5 t))"
      by (simp add: kind_marker_at_iff)
    from False q assms have "x = take 8 (dropWhile is_space (drop 5 t))"
      by (simp add: type_at_markers)
    with ci_prefix_lower[OF p] have "toLowerCase x = ''question''" unfolding l2 lq by simp
    with q show ?thesis by simp
  qed
qed

lemma type_search_None:
  "regex_search type_at raw = None \<longleftrightarrow>
     \<not> kind_found ''commentary'' raw \<and> \<not> kind_found ''question'' raw"
proof -
  have "type_at t = None \<longleftrightarrow> \<not> kind_marker_at ''commentary'' t \<and> \<not> kind_marker_at ''question'' t" for t
    by (simp add: type_at_markers)
  then show ?thesis
    by (simp add: regex_search_None kind_found_def list_ex_iff) blast
qed

lemma type_search_Some:
  assumes "regex_search type_at raw = Some x"
  shows "kind_found (toLowerCase x) raw"
proof -
  from regex_search_Some[OF assms] obtain t where "t \<in> set (suffixes raw)" "type_at t = Some x"
    by blast
  then show ?thesis using type_at_found unfolding kind_found_def list_ex_iff by blast
qed

lemma parseResponse_miss_type:
  assumes "\<not> kind_found ''commentary'' raw" "\<not> kind_found ''question'' raw"
  shows "parseResponse raw = \<lparr>type = ''commentary'', text = trim raw\<rparr>"
proof -
  from assms have "regex_search type_at raw = None" by (simp add: type_search_None)
  then show ?thesis by (simp add: parseResponse_def)
qed

lemma parseResponse_miss_body:
  assumes "body_after raw = None \<or> body_after raw = Some []"
  shows "parseResponse raw = \<lparr>type = ''commentary'', text = trim raw\<rparr>"
proof -
  from assms have "regex_search text_at raw = None" by (auto simp: text_search)
  then show ?thesis by (simp add: parseResponse_def split: option.splits)
qed

lemma parseResponse_hit:
  assumes k: "kind_found ''commentary'' raw \<or> kind_found ''question'' raw"
    and b: "body_after raw = Some v" and v: "v \<noteq> []"
  shows "kind_found (type (parseResponse raw)) raw \<and> text (parseResponse raw) = trim v"
proof -
  from k obtain x where x: "regex_search type_at raw = Some x"
    using type_search_None[of raw] by (cases "regex_search type_at raw") auto
  define c where "c = (if dropWhile is_space v = [] then [last v] else dropWhile is_space v)"
  from b v have t: "regex_search text_at raw = Some c" by (simp add: text_search c_def)
  have "trim c = trim v" unfolding c_def using v by (rule capture_trim)
  moreover have "parseResponse raw = \<lparr>type = toLowerCase x, text = trim c\<rparr>"
    using x t by (simp add: parseResponse_def)
  ultimately show ?thesis using type_search_Some[OF x] by simp
qed

lemma parseResponse_text_empty: "text (parseResponse raw) = [] \<longleftrightarrow> empty_note_output raw"
proof (cases "(kind_found ''commentary'' raw \<or> kind_found ''question'' raw) \<and>
              (\<exists>v. body_after raw = Some v \<and> v \<noteq> [])")
  case True
  then obtain v where b: "body_after raw = Some v" "v \<noteq> []" by blast
  with True have "text (parseResponse raw) = trim v" using parseResponse_hit by blast
  then show ?thesis using b True by (simp add: empty_note_output_def trim_Nil_iff)
next
  case False
  then have "parseResponse raw = \<lparr>type = ''commentary'', text = trim raw\<rparr>"
    using parseResponse_miss_type[of raw] parseResponse_miss_body[of raw]
    by (cases "body_after raw") auto
  then have "text (parseResponse raw) = [] \<longleftrightarrow> list_all is_space raw"
    by (simp add: trim_Nil_iff)
  moreover have "empty_note_output raw \<longleftrightarrow> list_all is_space raw"
    using False by (auto simp: empty_note_output_def split: option.splits)
  ultimately show ?thesis by simp
qed

lemma generateMarginNote_resolves: "\<exists>n. generateMarginNote model t = Inr n"
  by (cases "model 0 (prompt t)")
     (simp_all add: generateMarginNote_def generateMarginNote_try_def)

lemma regex_search_find:
  "regex_search m s =
     (case find (\<lambda>t. m t \<noteq> None) (rev (suffixes s)) of None \<Rightarrow> None | Some t \<Rightarrow> m t)"
proof (induction s)
  case Nil
  then show ?case by (cases "m []") simp_all
next
  case (Cons c cs)
  then show ?case by (cases "m (c # cs)") simp_all
qed

lemma type_at_lower:
  assumes "type_at t = Some x"
  shows "toLowerCase x = (if kind_marker_at ''commentary'' t then ''commentary'' else ''question'')"
proof -
  have l1: "length ''commentary'' = 10" and l2: "length ''question'' = 8" by simp_all
  have lc: "toLowerCase ''commentary'' = ''commentary''"
    and lq: "toLowerCase ''question'' = ''question''"
    by (simp_all add: toLowerCase_def lower_char_def)
  show ?thesis
  proof (cases "kind_marker_at ''commentary'' t")
    case True
    then have p: "ci_prefix ''commentary'' (dropWhile is_space (drop 5 t))"
      by (simp add: kind_marker_at_iff)
    from True assms have "x = take 10 (dropWhile is_space (drop 5 t))"
      by (simp add: type_at_markers)
    with ci_prefix_lower[OF p] have "toLowerCase x = ''commentary''" unfolding l1 lc by simp
    with True show ?thesis by simp
  next
    case False
    with assms have q: "kind_marker_at ''question'' t"
      by (simp add: type_at_markers split: if_splits)
    then have p: "ci_prefix ''question'' (dropWhile is_space (drop 5 t))"
      by (simp add: kind_marker_at_iff)
    from False q assms have "x = take 8 (dropWhile is_space (drop 5 t))"
      by (simp add: type_at_markers)
    with ci_prefix_lower[OF p] have "toLowerCase x = ''question''" unfolding l2 lq by simp
    with False show ?thesis by simp
  qed
qed

lemma type_at_None_iff:
  "type_at t \<noteq> None \<longleftrightarrow> kind_marker_at ''commentary'' t \<or> kind_marker_at ''question'' t"
  by (simp add: type_at_markers)

lemma type_search_first_kind:
  "map_option toLowerCase (regex_search type_at raw) = first_kind raw"
proof -
  have f: "find (\<lambda>t. type_at t \<noteq> None) (rev (suffixes raw)) =
           find (\<lambda>t. kind_marker_at ''commentary'' t \<or> kind_marker_at ''question'' t)
             (rev (suffixes raw))"
  proof -
    have "(\<lambda>t. type_at t \<noteq> None) =
          (\<lambda>t. kind_marker_at ''commentary'' t \<or> kind_marker_at ''question'' t)"
      by (rule ext) (rule type_at_None_iff)
    then show ?thesis by (simp only:)
  qed
  show ?thesis
  proof (cases "find (\<lambda>t. type_at t \<noteq> None) (rev (suffixes raw))")
    case None
    then show ?thesis using f by (simp add: regex_search_find[of type_at raw] first_kind_def)
  next
    case (Some t)
    then have "type_at t \<noteq> None" by (auto simp: find_Some_iff)
    then obtain x where x: "type_at t = Some x" by auto
    from Some x have "regex_search type_at raw = Some x"
      by (simp add: regex_search_find[of type_at raw])
    moreover from Some f
    have g: "find (\<lambda>t. kind_marker_at ''commentary'' t \<or> kind_marker_at ''question'' t)
               (rev (suffixes raw)) = Some t"
      by simp
    have "first_kind raw =
        Some (if kind_marker_at ''commentary'' t then ''commentary'' else ''question'')"
      unfolding first_kind_def g by simp
    ultimately show ?thesis using type_at_lower[OF x] by simp
  qed
qed

section \<open>The client always resolves\<close>

text \<open>
  Claim C1, as amended. For every paragraph text and every behaviour of the collaborator,
  both clients resolve (\<open>Inr\<close>, never a rejection) to a value whose type is
  \<open>commentary\<close> or \<open>question\<close>. When the collaborator fails, at either stage, the value is
  the client's fixed fallback: the type \<open>commentary\<close> with the fixed message. When the
  generating call succeeds the value is what the parser makes of its output, and the text
  of that value is empty exactly when the output gives an empty note
  (\<open>empty_note_output\<close>).
\<close>

theorem generateMarginNote_total:
  \<open>(\<exists>n. generateMarginNote model p = Inr n \<and>
        (type n = ''commentary'' \<or> type n = ''question'') \<and>
        (text n = [] \<longleftrightarrow> (\<exists>raw. model 0 (prompt p) = Inr raw \<and> empty_note_output raw)) \<and>
        ((\<exists>e. model 0 (prompt p) = Inl e) \<longrightarrow>
           n = \<lparr>type = ''commentary'',
                 text = ''I'm having trouble connecting right now. Try again in a moment.''\<rparr>) \<and>
        (\<forall>raw. model 0 (prompt p) = Inr raw \<longrightarrow> n = parseResponse raw)) \<and>
   (\<exists>n. generateMarginNote_adaptive model p = Inr n \<and>
        (type n = ''commentary'' \<or> type n = ''question'') \<and>
        (text n = [] \<longleftrightarrow>
           (\<exists>a raw. model 0 (analysisPrompt p) = Inr a \<and>
                    model 1 (mainPrompt (contentType_of a) p) = Inr raw \<and>
                    empty_note_output raw)) \<and>
        ((\<exists>e. model 0 (analysisPrompt p) = Inl e) \<or>
         (\<exists>a e. model 0 (analysisPrompt p) = Inr a \<and>
                model 1 (mainPrompt (contentType_of a) p) = Inl e) \<longrightarrow>
           n = \<lparr>type = ''commentary'',
                 text = ''Unable to generate reflection. Please try again.''\<rparr>) \<and>
        (\<forall>a raw. model 0 (analysisPrompt p) = Inr a \<and>
                 model 1 (mainPrompt (contentType_of a) p) = Inr raw \<longrightarrow>
           n = parseResponse raw))\<close>
proof
  show \<open>\<exists>n. generateMarginNote model p = Inr n \<and>
        (type n = ''commentary'' \<or> type n = ''question'') \<and>
        (text n = [] \<longleftrightarrow> (\<exists>raw. model 0 (prompt p) = Inr raw \<and> empty_note_output raw)) \<and>
        ((\<exists>e. model 0 (prompt p) = Inl e) \<longrightarrow>
           n = \<lparr>type = ''commentary'',
                 text = ''I'm having trouble connecting right now. Try again in a moment.''\<rparr>) \<and>
        (\<forall>raw. model 0 (prompt p) = Inr raw \<longrightarrow> n = parseResponse raw)\<close>
  proof (cases "model 0 (prompt p)")
    case (Inl e)
    then have "generateMarginNote model p = Inr fallback_note"
      by (simp add: generateMarginNote_def generateMarginNote_try_def)
    then show ?thesis using Inl by (simp add: fallback_note_def)
  next
    case (Inr raw)
    then have "generateMarginNote model p = Inr (parseResponse raw)"
      by (simp add: generateMarginNote_def generateMarginNote_try_def)
    then show ?thesis using Inr parseResponse_type[of raw] parseResponse_text_empty[of raw]
      by simp
  qed
next
  show \<open>\<exists>n. generateMarginNote_adaptive model p = Inr n \<and>
        (type n = ''commentary'' \<or> type n = ''question'') \<and>
        (text n = [] \<longleftrightarrow>
           (\<exists>a raw. model 0 (analysisPrompt p) = Inr a \<and>
                    model 1 (mainPrompt (contentType_of a) p) = Inr raw \<and>
                    empty_note_output raw)) \<and>
        ((\<exists>e. model 0 (analysisPrompt p) = Inl e) \<or>
         (\<exists>a e. model 0 (analysisPrompt p) = Inr a \<and>
                model 1 (mainPrompt (contentType_of a) p) = Inl e) \<longrightarrow>
           n = \<lparr>type = ''commentary'',
                 text = ''Unable to generate reflection. Please try again.''\<rparr>) \<and>
        (\<forall>a raw. model 0 (analysisPrompt p) = Inr a \<and>
                 model 1 (mainPrompt (contentType_of a) p) = Inr raw \<longrightarrow>
           n = parseResponse raw)\<close>
  proof (cases "model 0 (analysisPrompt p)")
    case (Inl e)
    then have "generateMarginNote_adaptive model p = Inr adaptive_fallback_note"
      by (simp add: generateMarginNote_adaptive_def generateMarginNote_adaptive_try_def)
    then show ?thesis using Inl by (simp add: adaptive_fallback_note_def)
  next
    case a: (Inr a)
    show ?thesis
    proof (cases "model 1 (mainPrompt (contentType_of a) p)")
      case (Inl e)
      then have "generateMarginNote_adaptive model p = Inr adaptive_fallback_note"
        using a by (simp add: generateMarginNote_adaptive_def generateMarginNote_adaptive_try_def)
      then show ?thesis using Inl a by (simp add: adaptive_fallback_note_def)
    next
      case (Inr raw)
      then have "generateMarginNote_adaptive model p = Inr (parseResponse raw)"
        using a by (simp add: generateMarginNote_adaptive_def generateMarginNote_adaptive_try_def)
      then show ?thesis
        using Inr a parseResponse_type[of raw] parseResponse_text_empty[of raw] by simp
    qed
  qed
qed

theorem generateMarginNote_total_witness:
  \<open>generateMarginNote scripted_model ''I feel stuck today.'' = Inr (parseResponse ''Journaling'') \<and>
   text (parseResponse ''Journaling'') \<noteq> [] \<and>
   generateMarginNote_adaptive scripted_model ''I feel stuck today.'' =
     Inr (parseResponse ''TYPE: question\<newline>TEXT: Why?'') \<and>
   text (parseResponse ''TYPE: question\<newline>TEXT: Why?'') \<noteq> [] \<and>
   generateMarginNote failing_model ''I feel stuck today.'' =
     Inr \<lparr>type = ''commentary'',
          text = ''I'm having trouble connecting right now. Try again in a moment.''\<rparr> \<and>
   generateMarginNote_adaptive failing_model ''I feel stuck today.'' =
     Inr \<lparr>type = ''commentary'', text = ''Unable to generate reflection. Please try again.''\<rparr> \<and>
   generateMarginNote_adaptive half_failing_model ''I feel stuck today.'' =
     Inr \<lparr>type = ''commentary'', text = ''Unable to generate reflection. Please try again.''\<rparr>\<close>
proof -
  have a: "\<not> empty_note_output ''Journaling''"
    by code_simp
  have b: "\<not> empty_note_output ''TYPE: question\<newline>TEXT: Why?''"
    by code_simp
  have m0: "scripted_model 0 (prompt ''I feel stuck today.'') = Inr ''Journaling''"
    and m0a: "scripted_model 0 (analysisPrompt ''I feel stuck today.'') = Inr ''Journaling''"
    by (simp_all add: scripted_model_def)
  have m1: "scripted_model 1 (mainPrompt (contentType_of ''Journaling'') ''I feel stuck today.'') =
      Inr ''TYPE: question\<newline>TEXT: Why?''"
    by (simp add: scripted_model_def)
  have f0: "failing_model 0 (prompt ''I feel stuck today.'') = Inl CollaboratorError"
    and f0a: "failing_model 0 (analysisPrompt ''I feel stuck today.'') = Inl CollaboratorError"
    by (simp_all add: failing_model_def)
  have h0: "half_failing_model 0 (analysisPrompt ''I feel stuck today.'') = Inr ''journaling''"
    by (simp add: half_failing_model_def)
  have h1: "half_failing_model 1 (mainPrompt (contentType_of ''journaling'') ''I feel stuck today.'') =
      Inl CollaboratorError"
    by (simp add: half_failing_model_def)
  note s = generateMarginNote_total[of scripted_model "''I feel stuck today.''"]
  note t = generateMarginNote_total[of failing_model "''I feel stuck today.''"]
  note u = generateMarginNote_total[of half_failing_model "''I feel stuck today.''"]
  from s[THEN conjunct1] obtain n where
    g: "generateMarginNote scripted_model ''I feel stuck today.'' = Inr n" and
    r: "\<forall>raw. scripted_model 0 (prompt ''I feel stuck today.'') = Inr raw \<longrightarrow> n = parseResponse raw"
    by (elim exE conjE) (rule that)
  from r[rule_format, OF m0] g
  have 1: "generateMarginNote scripted_model ''I feel stuck today.'' =
      Inr (parseResponse ''Journaling'')"
    by (simp only:)
  from a have n1: "text (parseResponse ''Journaling'') \<noteq> []"
    unfolding parseResponse_text_empty .
  from s[THEN conjunct2] obtain n where
    g: "generateMarginNote_adaptive scripted_model ''I feel stuck today.'' = Inr n" and
    r: "\<forall>a raw. scripted_model 0 (analysisPrompt ''I feel stuck today.'') = Inr a \<and>
          scripted_model 1 (mainPrompt (contentType_of a) ''I feel stuck today.'') = Inr raw \<longrightarrow>
          n = parseResponse raw"
    by (elim exE conjE) (rule that)
  from r[rule_format, OF conjI, OF m0a m1] g
  have 2: "generateMarginNote_adaptive scripted_model ''I feel stuck today.'' =
      Inr (parseResponse ''TYPE: question\<newline>TEXT: Why?'')"
    by (simp only:)
  from b have n2: "text (parseResponse ''TYPE: question\<newline>TEXT: Why?'') \<noteq> []"
    unfolding parseResponse_text_empty .
  from t[THEN conjunct1] obtain n where
    g: "generateMarginNote failing_model ''I feel stuck today.'' = Inr n" and
    r: \<open>(\<exists>e. failing_model 0 (prompt ''I feel stuck today.'') = Inl e) \<longrightarrow>
          n = \<lparr>type = ''commentary'',
                text = ''I'm having trouble connecting right now. Try again in a moment.''\<rparr>\<close>
    by (elim exE conjE) (rule that)
  from r[rule_format, OF exI, OF f0] g
  have 3: \<open>generateMarginNote failing_model ''I feel stuck today.'' =
     Inr \<lparr>type = ''commentary'',
          text = ''I'm having trouble connecting right now. Try again in a moment.''\<rparr>\<close>
    by (simp only:)
  from t[THEN conjunct2] obtain n where
    g: "generateMarginNote_adaptive failing_model ''I feel stuck today.'' = Inr n" and
    r: \<open>(\<exists>e. failing_model 0 (analysisPrompt ''I feel stuck today.'') = Inl e) \<or>
        (\<exists>a e. failing_model 0 (analysisPrompt ''I feel stuck today.'') = Inr a \<and>
               failing_model 1 (mainPrompt (contentType_of a) ''I feel stuck today.'') = Inl e) \<longrightarrow>
          n = \<lparr>type = ''commentary'', text = ''Unable to generate reflection. Please try again.''\<rparr>\<close>
    by (elim exE conjE) (rule that)
  from r[rule_format, OF disjI1, OF exI, OF f0a] g
  have 4: \<open>generateMarginNote_adaptive failing_model ''I feel stuck today.'' =
     Inr \<lparr>type = ''commentary'', text = ''Unable to generate reflection. Please try again.''\<rparr>\<close>
    by (simp only:)
  from u[THEN conjunct2] obtain n where
    g: "generateMarginNote_adaptive half_failing_model ''I feel stuck today.'' = Inr n" and
    r: \<open>(\<exists>e. half_failing_model 0 (analysisPrompt ''I feel stuck today.'') = Inl e) \<or>
        (\<exists>a e. half_failing_model 0 (analysisPrompt ''I feel stuck today.'') = Inr a \<and>
               half_failing_model 1 (mainPrompt (contentType_of a) ''I feel stuck today.'') = Inl e) \<longrightarrow>
          n = \<lparr>type = ''commentary'', text = ''Unable to generate reflection. Please try again.''\<rparr>\<close>
    by (elim exE conjE) (rule that)
  have hh: \<open>\<exists>a e. half_failing_model 0 (analysisPrompt ''I feel stuck today.'') = Inr a \<and>
               half_failing_model 1 (mainPrompt (contentType_of a) ''I feel stuck today.'') = Inl e\<close>
    using h0 h1 by (intro exI conjI)
  from r[rule_format, OF disjI2, OF hh] g
  have 5: \<open>generateMarginNote_adaptive half_failing_model ''I feel stuck today.'' =
     Inr \<lparr>type = ''commentary'', text = ''Unable to generate reflection. Please try again.''\<rparr>\<close>
    by (simp only:)
  from 1 n1 2 n2 3 4 5 show ?thesis by (intro conjI)
qed

text \<open>
  Claim C1 as it is stated fails: when the collaborator answers with the empty string,
  the client resolves to a note whose text is the empty string.
\<close>

theorem generateMarginNote_empty_text_counterexample:
  "generateMarginNote silent_model ''I feel stuck today.'' =
     Inr \<lparr>type = ''commentary'', text = ''''\<rparr>"
  by (simp add: generateMarginNote_def generateMarginNote_try_def silent_model_def
      parseResponse_def trim_def type_at_def ci_prefix_def)

section \<open>What the parser returns\<close>

text \<open>
  Claim C6, as amended. The type marker is \<open>TYPE:\<close> in any letter case, then optional white
  space, then a text that begins with \<open>commentary\<close> or \<open>question\<close> in any letter case; the
  body marker is \<open>TEXT:\<close> in exactly this case. If no type marker stands in the output, or
  no body marker stands in it, or nothing follows the first body marker, the result is the
  type \<open>commentary\<close> with the whole output, trimmed. Otherwise the result is the kind of
  the first type marker, in lower case, with what follows the first body marker, trimmed.
\<close>

theorem parseResponse_first_markers:
  "parseResponse raw =
     (case first_kind raw of
        None \<Rightarrow> \<lparr>type = ''commentary'', text = trim raw\<rparr>
      | Some k \<Rightarrow>
          (case body_after raw of
             None \<Rightarrow> \<lparr>type = ''commentary'', text = trim raw\<rparr>
           | Some v \<Rightarrow>
               if v = [] then \<lparr>type = ''commentary'', text = trim raw\<rparr>
               else \<lparr>type = k, text = trim v\<rparr>))"
proof (cases "regex_search type_at raw")
  case None
  then have "first_kind raw = None" using type_search_first_kind[of raw] by simp
  then show ?thesis using None by (simp add: parseResponse_def)
next
  case (Some x)
  then have k: "first_kind raw = Some (toLowerCase x)"
    using type_search_first_kind[of raw] by simp
  show ?thesis
  proof (cases "body_after raw")
    case None
    then have "regex_search text_at raw = None" by (simp add: text_search)
    then show ?thesis using Some k None by (simp add: parseResponse_def)
  next
    case b: (Some v)
    show ?thesis
    proof (cases "v = []")
      case True
      then have "regex_search text_at raw = None" using b by (simp add: text_search)
      then show ?thesis using Some k b True by (simp add: parseResponse_def)
    next
      case False
      define c where "c = (if dropWhile is_space v = [] then [last v] else dropWhile is_space v)"
      from b False have t: "regex_search text_at raw = Some c" by (simp add: text_search c_def)
      have "trim c = trim v" unfolding c_def using False by (rule capture_trim)
      then show ?thesis using Some k b False t by (simp add: parseResponse_def)
    qed
  qed
qed

theorem parseResponse_first_markers_witness:
  "first_kind ''Just a thought.'' = None \<and>
   parseResponse ''Just a thought.'' = \<lparr>type = ''commentary'', text = trim ''Just a thought.''\<rparr> \<and>
   first_kind ''Type: Commentary'' = Some ''commentary'' \<and>
   body_after ''Type: Commentary'' = None \<and>
   parseResponse ''Type: Commentary'' = \<lparr>type = ''commentary'', text = trim ''Type: Commentary''\<rparr> \<and>
   first_kind ''type: Question. TYPE: commentary\<newline>TEXT: Why?\<newline>'' = Some ''question'' \<and>
   body_after ''type: Question. TYPE: commentary\<newline>TEXT: Why?\<newline>'' = Some '' Why?\<newline>'' \<and>
   parseResponse ''type: Question. TYPE: commentary\<newline>TEXT: Why?\<newline>'' =
     \<lparr>type = ''question'', text = trim '' Why?\<newline>''\<rparr>"
proof -
  have a: "first_kind ''Just a thought.'' = None" by code_simp
  have b: "first_kind ''Type: Commentary'' = Some ''commentary''" by code_simp
  have c: "body_after ''Type: Commentary'' = None" by code_simp
  have d: "first_kind ''type: Question. TYPE: commentary\<newline>TEXT: Why?\<newline>'' = Some ''question''"
    by code_simp
  have e: "body_after ''type: Question. TYPE: commentary\<newline>TEXT: Why?\<newline>'' = Some '' Why?\<newline>''"
    by code_simp
  note 1 = parseResponse_first_markers[of "''Just a thought.''", unfolded a]
  note 2 = parseResponse_first_markers[of "''Type: Commentary''", unfolded b c]
  note 3 = parseResponse_first_markers[of "''type: Question. TYPE: commentary\<newline>TEXT: Why?\<newline>''",
      unfolded d e]
  from 1 2 3 a b c d e show ?thesis by simp
qed

text \<open>
  Claim C6 as it is stated fails at each of these outputs. In the first both markers are
  present and the type is a recognized one, yet the result is the fallback with the whole
  output, because nothing follows the body marker. In the second the body marker is
  written in lower case and is not found, so the result is the fallback again. In the
  third the value of the type marker, \<open>questionnaire\<close>, is not one of the two kinds, yet the
  result is the type \<open>question\<close> with the body.
\<close>

theorem parseResponse_markers_counterexample:
  "parseResponse ''TYPE: question\<newline>TEXT:'' =
     \<lparr>type = ''commentary'', text = ''TYPE: question\<newline>TEXT:''\<rparr> \<and>
   parseResponse ''TYPE: question\<newline>text: hi'' =
     \<lparr>type = ''commentary'', text = ''TYPE: question\<newline>text: hi''\<rparr> \<and>
   parseResponse ''TYPE: questionnaire\<newline>TEXT: ok'' =
     \<lparr>type = ''question'', text = ''ok''\<rparr>"
  by code_simp

section \<open>The template follows the classification\<close>

lemma templates_distinct:
  "strategy_template_spec l p = strategy_template_spec l' p \<Longrightarrow> l = l'"
proof -
  assume e: "strategy_template_spec l p = strategy_template_spec l' p"
  have h: "take 15 (strategy_template_spec k p) =
      (case k of Journaling \<Rightarrow> ''You are a thoug'' | Brainstorming \<Rightarrow> ''You are a creat''
       | Technical \<Rightarrow> ''You are a techn'' | Storytelling \<Rightarrow> ''You are a story''
       | NoteTaking \<Rightarrow> ''You are a note '' | Other \<Rightarrow> ''You are a suppo'')" for k
    by (cases k)
       (simp_all add: journaling_prompt_def brainstorming_prompt_def technical_prompt_def
          storytelling_prompt_def note_taking_prompt_def default_prompt_def)
  from e have "take 15 (strategy_template_spec l p) = take 15 (strategy_template_spec l' p)"
    by simp
  then show "l = l'" unfolding h by (cases l; cases l') simp_all
qed

text \<open>
  Claim C7. The Stage-1 output is trimmed and lower-cased; the template the
  \<open>switch\<close> selects is the template of the label the specification's rule assigns: the
  label the normalized output equals, and \<open>other\<close> with its fallback template for every
  other output, \<open>poetry\<close> among them. That template is the prompt of the generating call.
\<close>

theorem mainPrompt_follows_classification:
  "contentType_of analysisText = toLowerCase (trim analysisText) \<and>
   mainPrompt (contentType_of analysisText) p =
     strategy_template_spec (classify_spec analysisText) p \<and>
   (contentType_of analysisText \<notin> label_name ` {Journaling, Brainstorming, Technical,
        Storytelling, NoteTaking, Other} \<longrightarrow>
      mainPrompt (contentType_of analysisText) p = default_prompt p) \<and>
   (model 0 (analysisPrompt p) = Inr analysisText \<longrightarrow>
      generateMarginNote_adaptive_try model p =
        (case model 1 (strategy_template_spec (classify_spec analysisText) p) of
           Inl e \<Rightarrow> Inl e
         | Inr responseText \<Rightarrow> Inr (parseResponse responseText)))"
proof -
  have s: "mainPrompt (contentType_of analysisText) p =
      strategy_template_spec (classify_spec analysisText) p"
    by (simp add: mainPrompt_def classify_spec_def contentType_of_def)
  have d: "contentType_of analysisText \<notin> label_name ` {Journaling, Brainstorming, Technical,
        Storytelling, NoteTaking, Other} \<longrightarrow>
      mainPrompt (contentType_of analysisText) p = default_prompt p"
    by (simp add: mainPrompt_def)
  show ?thesis using s d
    by (simp add: generateMarginNote_adaptive_try_def contentType_of_def)
qed

theorem mainPrompt_follows_classification_witness:
  "classify_spec ''poetry'' = Other \<and>
   mainPrompt (contentType_of ''poetry'') ''I feel stuck today.'' =
     default_prompt ''I feel stuck today.'' \<and>
   classify_spec '' Technical\<newline>'' = Technical \<and>
   mainPrompt (contentType_of '' Technical\<newline>'') ''I feel stuck today.'' =
     technical_prompt ''I feel stuck today.'' \<and>
   scripted_model 0 (analysisPrompt ''I feel stuck today.'') = Inr ''Journaling'' \<and>
   classify_spec ''Journaling'' = Journaling \<and>
   generateMarginNote_adaptive_try scripted_model ''I feel stuck today.'' =
     (case scripted_model 1 (journaling_prompt ''I feel stuck today.'') of
        Inl e \<Rightarrow> Inl e
      | Inr responseText \<Rightarrow> Inr (parseResponse responseText))"
proof -
  have a: "classify_spec ''poetry'' = Other" by code_simp
  have b: "classify_spec '' Technical\<newline>'' = Technical" by code_simp
  have c: "strategy_template_spec Other = default_prompt"
    and d: "strategy_template_spec Technical = technical_prompt"
    and j: "strategy_template_spec Journaling = journaling_prompt"
    by simp_all
  have e: "scripted_model 0 (analysisPrompt ''I feel stuck today.'') = Inr ''Journaling''"
    by (simp add: scripted_model_def)
  have f: "classify_spec ''Journaling'' = Journaling" by code_simp
  show ?thesis
    using mainPrompt_follows_classification[of "''poetry''" "''I feel stuck today.''"]
      mainPrompt_follows_classification[of "'' Technical\<newline>''" "''I feel stuck today.''"]
      mainPrompt_follows_classification[of "''Journaling''" "''I feel stuck today.''" scripted_model]
      e
    unfolding a b c d f j by blast
qed

section \<open>The trigger, the handler and the note store\<close>

lemma trim_empty: "trim [] = []"
  by (simp add: trim_def)

lemma paragraphs_nonempty: "p \<in> set (paragraphs c) \<Longrightarrow> p \<noteq> [] \<and> trim p \<noteq> []"
  by (auto simp: paragraphs_def trim_empty)

lemma trigger_target_paragraphs:
  "trigger_target prev (paragraphs c) =
     (if prev < length (paragraphs c) \<and> 2 \<le> length (paragraphs c)
      then Some (length (paragraphs c) - 2, paragraphs c ! (length (paragraphs c) - 2))
      else None)"
proof (cases "prev < length (paragraphs c) \<and> 2 \<le> length (paragraphs c)")
  case True
  then have i: "length (paragraphs c) - 2 < length (paragraphs c)" by arith
  then have "paragraphs c ! (length (paragraphs c) - 2) \<in> set (paragraphs c)"
    by (rule nth_mem)
  then have ne: "paragraphs c ! (length (paragraphs c) - 2) \<noteq> []"
    using paragraphs_nonempty by blast
  have n: "nat (int (length (paragraphs c)) - 2) = length (paragraphs c) - 2" by simp
  show ?thesis using True ne unfolding trigger_target_def Let_def n by simp
next
  case False
  then show ?thesis unfolding trigger_target_def Let_def by auto
qed

lemma handler_start_Some:
  "handler_start seen prev i t = Some pending \<longleftrightarrow>
     10 \<le> length (trim t) \<and> seen i = None \<and> pending = prev(i \<mapsto> loading_note)"
  by (auto simp: handler_start_def)

lemma run_effect_result:
  assumes "effectDeps st = prevParagraphCount st"
  shows "run_effect (st\<lparr>content := c\<rparr>) =
     (let n = length (paragraphs c);
          fire = (prevParagraphCount st < n \<and> 2 \<le> n \<and>
                  10 \<le> length (trim (paragraphs c ! (n - 2))) \<and> marginNotes st (n - 2) = None)
      in ((if fire
           then st\<lparr>content := c, marginNotes := (marginNotes st)(n - 2 \<mapsto> loading_note),
                   inFlight := inFlight st @ [(n - 2, paragraphs c ! (n - 2))]\<rparr>
           else st\<lparr>content := c\<rparr>)\<lparr>prevParagraphCount := n, effectDeps := n\<rparr>,
          if fire then Some (n - 2, paragraphs c ! (n - 2)) else None))"
proof (cases "effectDeps st = length (paragraphs c)")
  case True
  then show ?thesis using assms
    by (simp add: run_effect_def Let_def)
next
  case False
  show ?thesis
  proof (cases "handler_start (marginNotes st) (marginNotes st) (length (paragraphs c) - 2)
                  (paragraphs c ! (length (paragraphs c) - 2))")
    case None
    then show ?thesis using False assms
      by (auto simp: run_effect_def Let_def trigger_target_paragraphs handler_start_def
          split: if_splits)
  next
    case (Some pending)
    then show ?thesis using False assms
      by (auto simp: run_effect_def Let_def trigger_target_paragraphs handler_start_def
          split: if_splits)
  qed
qed

lemma handler_finish_client:
  "\<exists>n. generateMarginNote model t = Inr n \<and>
       handler_finish (generateMarginNote model t) i later = later(i \<mapsto> resolved_note n)"
proof -
  from generateMarginNote_resolves obtain n where "generateMarginNote model t = Inr n" by blast
  then show ?thesis by (simp add: handler_finish_def)
qed

lemma run_effect_cases:
  assumes "run_effect st = (st', f)"
  shows "(f = None \<and> marginNotes st' = marginNotes st \<and> inFlight st' = inFlight st) \<or>
         (\<exists>i t. f = Some (i, t) \<and> marginNotes st i = None \<and> 10 \<le> length (trim t) \<and>
                marginNotes st' = (marginNotes st)(i \<mapsto> loading_note) \<and>
                inFlight st' = inFlight st @ [(i, t)])"
proof (cases "effectDeps st = length (paragraphs (content st))")
  case True
  then show ?thesis using assms by (simp add: run_effect_def Let_def)
next
  case False
  show ?thesis
  proof (cases "trigger_target (prevParagraphCount st) (paragraphs (content st))")
    case None
    then show ?thesis using assms False by (auto simp: run_effect_def Let_def)
  next
    case (Some r)
    obtain i t where r: "r = (i, t)" by (cases r)
    show ?thesis
    proof (cases "handler_start (marginNotes st) (marginNotes st) i t")
      case None
      then show ?thesis using assms False Some r by (auto simp: run_effect_def Let_def)
    next
      case (Some pending)
      then have "10 \<le> length (trim t)" "marginNotes st i = None"
        "pending = (marginNotes st)(i \<mapsto> loading_note)"
        by (simp_all add: handler_start_Some)
      then show ?thesis
        using assms False Some r \<open>trigger_target (prevParagraphCount st) (paragraphs (content st)) = Some r\<close>
        by (auto simp: run_effect_def Let_def)
    qed
  qed
qed

lemma step_cases:
  assumes "step e st = (st', f)"
  shows "(f = None \<and> marginNotes st' = marginNotes st \<and> inFlight st' = inFlight st) \<or>
         (\<exists>i t. f = Some (i, t) \<and> marginNotes st i = None \<and> 10 \<le> length (trim t) \<and>
                marginNotes st' = (marginNotes st)(i \<mapsto> loading_note) \<and>
                inFlight st' = inFlight st @ [(i, t)]) \<or>
         (\<exists>k i t n. f = None \<and> k < length (inFlight st) \<and> inFlight st ! k = (i, t) \<and>
                marginNotes st' = (marginNotes st)(i \<mapsto> resolved_note n) \<and>
                inFlight st' = take k (inFlight st) @ drop (Suc k) (inFlight st))"
proof (cases e)
  case (Edit c)
  with assms have "run_effect (st\<lparr>content := c\<rparr>) = (st', f)" by simp
  from run_effect_cases[OF this]
  have "(f = None \<and> marginNotes st' = marginNotes st \<and> inFlight st' = inFlight st) \<or>
        (\<exists>i t. f = Some (i, t) \<and> marginNotes st i = None \<and> 10 \<le> length (trim t) \<and>
               marginNotes st' = (marginNotes st)(i \<mapsto> loading_note) \<and>
               inFlight st' = inFlight st @ [(i, t)])"
    by simp
  then show ?thesis by blast
next
  case (Settle k model)
  show ?thesis
  proof (cases "k < length (inFlight st)")
    case False
    then show ?thesis using assms Settle by auto
  next
    case True
    obtain i t where r: "inFlight st ! k = (i, t)" by (cases "inFlight st ! k")
    from handler_finish_client[of model t i "marginNotes st"] obtain n where
      n: "handler_finish (generateMarginNote model t) i (marginNotes st) =
         (marginNotes st)(i \<mapsto> resolved_note n)" by blast
    from assms Settle True r n have "f = None"
      and "marginNotes st' = (marginNotes st)(i \<mapsto> resolved_note n)"
      and "inFlight st' = take k (inFlight st) @ drop (Suc k) (inFlight st)"
      by auto
    with True r show ?thesis by blast
  qed
qed






lemma step_deps:
  assumes "effectDeps st = prevParagraphCount st"
  shows "effectDeps (fst (step e st)) = prevParagraphCount (fst (step e st))"
proof (cases e)
  case (Edit c)
  then show ?thesis using run_effect_result[OF assms, of c] by (simp add: Let_def)
next
  case (Settle k model)
  then show ?thesis using assms by (auto split: prod.splits)
qed

lemma run_Cons_fst: "fst (run (e # es) st) = fst (run es (fst (step e st)))"
  by (simp split: prod.splits)

lemma run_deps:
  "effectDeps st = prevParagraphCount st \<Longrightarrow>
   effectDeps (fst (run es st)) = prevParagraphCount (fst (run es st))"
proof (induction es arbitrary: st)
  case Nil
  then show ?case by simp
next
  case (Cons e es)
  from step_deps[OF Cons.prems, of e] Cons.IH[of "fst (step e st)"]
  show ?case unfolding run_Cons_fst by blast
qed

lemma reachable_deps:
  "effectDeps (fst (run es (mounted saved))) = prevParagraphCount (fst (run es (mounted saved)))"
  by (rule run_deps) (simp add: mounted_def)

text \<open>
  Claim C4, as amended. In every state the component can reach, when the content changes
  the effect calls the handler exactly when the paragraph count is greater than the
  stored one and is at least 2, for the paragraph at index count - 2 with its text; the
  request is issued exactly when, in addition, that paragraph passes the eligibility gate
  (ten characters after trimming, no entry for the index). No call and no request is made
  when the count stays equal or decreases, and the count is stored.
\<close>

theorem trigger_on_count_increase:
  "trigger_target prev (paragraphs c) =
     (if prev < length (paragraphs c) \<and> 2 \<le> length (paragraphs c)
      then Some (length (paragraphs c) - 2, paragraphs c ! (length (paragraphs c) - 2))
      else None) \<and>
   prevParagraphCount (fst (step (Edit c) (fst (run es (mounted saved))))) =
     length (paragraphs c) \<and>
   snd (step (Edit c) (fst (run es (mounted saved)))) =
     (if prevParagraphCount (fst (run es (mounted saved))) < length (paragraphs c) \<and>
         2 \<le> length (paragraphs c) \<and>
         10 \<le> length (trim (paragraphs c ! (length (paragraphs c) - 2))) \<and>
         marginNotes (fst (run es (mounted saved))) (length (paragraphs c) - 2) = None
      then Some (length (paragraphs c) - 2, paragraphs c ! (length (paragraphs c) - 2))
      else None)"
  using trigger_target_paragraphs[of prev c]
    run_effect_result[where st = "fst (run es (mounted saved))" and c = c, OF reachable_deps]
  by (simp add: Let_def)

theorem trigger_on_count_increase_witness:
  "prevParagraphCount (fst (run [Edit ''I feel stuck today.''] (mounted Map.empty))) = 1 \<and>
   length (paragraphs ''I feel stuck today.\<newline>\<newline>Maybe'') = 2 \<and>
   snd (step (Edit ''I feel stuck today.\<newline>\<newline>Maybe'')
          (fst (run [Edit ''I feel stuck today.''] (mounted Map.empty)))) =
     Some (0, ''I feel stuck today.'')"
proof -
  have a: "prevParagraphCount (fst (run [Edit ''I feel stuck today.''] (mounted Map.empty))) = 1"
    by code_simp
  have b: "length (paragraphs ''I feel stuck today.\<newline>\<newline>Maybe'') = 2"
    by code_simp
  have c: "prevParagraphCount (fst (run [Edit ''I feel stuck today.''] (mounted Map.empty)))
             < length (paragraphs ''I feel stuck today.\<newline>\<newline>Maybe'') \<and>
           2 \<le> length (paragraphs ''I feel stuck today.\<newline>\<newline>Maybe'') \<and>
           10 \<le> length (trim (paragraphs ''I feel stuck today.\<newline>\<newline>Maybe'' !
                  (length (paragraphs ''I feel stuck today.\<newline>\<newline>Maybe'') - 2))) \<and>
           marginNotes (fst (run [Edit ''I feel stuck today.''] (mounted Map.empty)))
             (length (paragraphs ''I feel stuck today.\<newline>\<newline>Maybe'') - 2) = None"
    by code_simp
  have d: "(length (paragraphs ''I feel stuck today.\<newline>\<newline>Maybe'') - 2,
            paragraphs ''I feel stuck today.\<newline>\<newline>Maybe'' !
              (length (paragraphs ''I feel stuck today.\<newline>\<newline>Maybe'') - 2)) =
           (0, ''I feel stuck today.'')"
    by code_simp
  from trigger_on_count_increase[of 1 "''I feel stuck today.\<newline>\<newline>Maybe''"
        "[Edit ''I feel stuck today.'']" Map.empty]
  have "snd (step (Edit ''I feel stuck today.\<newline>\<newline>Maybe'')
          (fst (run [Edit ''I feel stuck today.''] (mounted Map.empty)))) =
     (if prevParagraphCount (fst (run [Edit ''I feel stuck today.''] (mounted Map.empty)))
             < length (paragraphs ''I feel stuck today.\<newline>\<newline>Maybe'') \<and>
           2 \<le> length (paragraphs ''I feel stuck today.\<newline>\<newline>Maybe'') \<and>
           10 \<le> length (trim (paragraphs ''I feel stuck today.\<newline>\<newline>Maybe'' !
                  (length (paragraphs ''I feel stuck today.\<newline>\<newline>Maybe'') - 2))) \<and>
           marginNotes (fst (run [Edit ''I feel stuck today.''] (mounted Map.empty)))
             (length (paragraphs ''I feel stuck today.\<newline>\<newline>Maybe'') - 2) = None
      then Some (length (paragraphs ''I feel stuck today.\<newline>\<newline>Maybe'') - 2,
            paragraphs ''I feel stuck today.\<newline>\<newline>Maybe'' !
              (length (paragraphs ''I feel stuck today.\<newline>\<newline>Maybe'') - 2))
      else None)"
    by blast
  then have "snd (step (Edit ''I feel stuck today.\<newline>\<newline>Maybe'')
          (fst (run [Edit ''I feel stuck today.''] (mounted Map.empty)))) =
       Some (0, ''I feel stuck today.'')"
    unfolding d using c by (simp only: if_True simp_thms)
  with a b show ?thesis by blast
qed

text \<open>
  Claim C4 as it is stated fails: from the empty document to a document of one paragraph
  the count increases, and no request is issued (the target index would be -1).
\<close>

theorem first_paragraph_counterexample:
  "prevParagraphCount (mounted Map.empty) < length (paragraphs ''I feel stuck today.'') \<and>
   snd (step (Edit ''I feel stuck today.'') (mounted Map.empty)) = None"
  by code_simp

text \<open>
  Claim C8. The handler fires only for a paragraph whose trimmed text has at least 10
  characters: with 9 characters it returns early, with 10 characters and no entry for the
  index it sets the loading entry and makes the request; and every request an event of
  the component fires has a text of at least 10 characters after trimming.
\<close>

theorem eligibility_floor:
  "(handler_start seen prev i t = Some pending \<longrightarrow> 10 \<le> length (trim t)) \<and>
   (length (trim t) = 9 \<longrightarrow> handler_start seen prev i t = None) \<and>
   (length (trim t) = 10 \<and> seen i = None \<longrightarrow>
      handler_start seen prev i t = Some (prev(i \<mapsto> loading_note))) \<and>
   (snd (step e st) = Some (i, t) \<longrightarrow> 10 \<le> length (trim t))"
proof -
  have "snd (step e st) = Some (i, t) \<longrightarrow> 10 \<le> length (trim t)"
    using step_cases[of e st "fst (step e st)" "snd (step e st)"] by auto
  then show ?thesis by (auto simp: handler_start_def)
qed

theorem eligibility_floor_witness:
  "length (trim ''aaaaaaaaa'') = 9 \<and>
   handler_start Map.empty Map.empty 0 ''aaaaaaaaa'' = None \<and>
   length (trim ''aaaaaaaaaa'') = 10 \<and>
   handler_start Map.empty Map.empty 0 ''aaaaaaaaaa'' = Some (Map.empty(0 \<mapsto> loading_note)) \<and>
   snd (step (Edit ''aaaaaaaaaa\<newline>\<newline>b'') (mounted Map.empty)) = Some (0, ''aaaaaaaaaa'') \<and>
   snd (step (Edit ''aaaaaaaaa\<newline>\<newline>b'') (mounted Map.empty)) = None"
proof -
  have a: "length (trim ''aaaaaaaaa'') = 9" by code_simp
  have b: "length (trim ''aaaaaaaaaa'') = 10" by code_simp
  have c: "snd (step (Edit ''aaaaaaaaaa\<newline>\<newline>b'') (mounted Map.empty)) = Some (0, ''aaaaaaaaaa'')"
    by code_simp
  have d: "snd (step (Edit ''aaaaaaaaa\<newline>\<newline>b'') (mounted Map.empty)) = None"
    by code_simp
  show ?thesis
    using eligibility_floor[of Map.empty Map.empty 0 "''aaaaaaaaa''"]
      eligibility_floor[of Map.empty Map.empty 0 "''aaaaaaaaaa''"] a b c d
    by simp
qed

text \<open>
  The handler by itself: it sets the loading entry with the placeholder text and leaves the
  other entries alone; when the client's promise settles, the client has resolved to a
  note, and the handler stores it at the index with \<open>isLoading\<close> false; when the
  collaborator failed, that note is the fixed fallback message. Whatever the outcome of
  the client, a rejection included, the entry of the index is not a loading entry
  afterwards.
\<close>

lemma handler_lifecycle:
  \<open>(handler_start seen prev i t = Some pending \<longrightarrow>
      pending i = Some \<lparr>type = ''commentary'', text = ''Thinking...'',
                        isVisible = True, isLoading = True\<rparr> \<and>
      (\<forall>j. j \<noteq> i \<longrightarrow> pending j = prev j)) \<and>
   (\<exists>n. generateMarginNote model t = Inr n \<and>
        handler_finish (generateMarginNote model t) i later i =
          Some \<lparr>type = type n, text = text n, isVisible = True, isLoading = False\<rparr>) \<and>
   (model 0 (prompt t) = Inl e \<longrightarrow>
      handler_finish (generateMarginNote model t) i later i =
        Some \<lparr>type = ''commentary'',
              text = ''I'm having trouble connecting right now. Try again in a moment.'',
              isVisible = True, isLoading = False\<rparr>) \<and>
   (\<forall>outcome. case handler_finish outcome i later i of
                 None \<Rightarrow> True
               | Some s \<Rightarrow> \<not> isLoading s) \<and>
   (k < length (inFlight st) \<and> inFlight st ! k = (i, t) \<longrightarrow>
      (\<exists>n. generateMarginNote model t = Inr n \<and>
           marginNotes (fst (step (Settle k model) st)) i =
             Some \<lparr>type = type n, text = text n, isVisible = True, isLoading = False\<rparr>))\<close>
proof -
  from handler_finish_client[of model t i later] obtain n where
    n: "generateMarginNote model t = Inr n"
       "handler_finish (generateMarginNote model t) i later = later(i \<mapsto> resolved_note n)"
    by blast
  have 1: "handler_start seen prev i t = Some pending \<longrightarrow>
      pending i = Some \<lparr>type = ''commentary'', text = ''Thinking...'',
                        isVisible = True, isLoading = True\<rparr> \<and>
      (\<forall>j. j \<noteq> i \<longrightarrow> pending j = prev j)"
    by (auto simp: handler_start_def loading_note_def)
  have 2: "\<exists>n. generateMarginNote model t = Inr n \<and>
        handler_finish (generateMarginNote model t) i later i =
          Some \<lparr>type = type n, text = text n, isVisible = True, isLoading = False\<rparr>"
    using n by (simp add: resolved_note_def)
  have 3: \<open>model 0 (prompt t) = Inl e \<longrightarrow>
      handler_finish (generateMarginNote model t) i later i =
        Some \<lparr>type = ''commentary'',
              text = ''I'm having trouble connecting right now. Try again in a moment.'',
              isVisible = True, isLoading = False\<rparr>\<close>
    by (simp add: generateMarginNote_def generateMarginNote_try_def handler_finish_def
        resolved_note_def fallback_note_def)
  have 4: "\<forall>outcome. case handler_finish outcome i later i of
                 None \<Rightarrow> True
               | Some s \<Rightarrow> \<not> isLoading s"
    by (auto simp: handler_finish_def resolved_note_def split: sum.splits)
  have 5: "k < length (inFlight st) \<and> inFlight st ! k = (i, t) \<longrightarrow>
      (\<exists>n. generateMarginNote model t = Inr n \<and>
           marginNotes (fst (step (Settle k model) st)) i =
             Some \<lparr>type = type n, text = text n, isVisible = True, isLoading = False\<rparr>)"
    using handler_finish_client[of model t i "marginNotes st"]
    by (auto simp: resolved_note_def)
  from 1 2 3 4 5 show ?thesis by blast
qed

lemma step_keeps_entry:
  assumes m: "marginNotes st i = Some v" and n: "i \<notin> fst ` set (inFlight st)"
    and s: "step e st = (st', f)"
  shows "marginNotes st' i = Some v \<and> i \<notin> fst ` set (inFlight st') \<and>
         (case f of None \<Rightarrow> True | Some r \<Rightarrow> fst r \<noteq> i)"
proof -
  from step_cases[OF s] consider
    (idle) "f = None" "marginNotes st' = marginNotes st" "inFlight st' = inFlight st"
    | (fire) j t where "f = Some (j, t)" "marginNotes st j = None"
        "marginNotes st' = (marginNotes st)(j \<mapsto> loading_note)"
        "inFlight st' = inFlight st @ [(j, t)]"
    | (settle) k j t a where "f = None" "k < length (inFlight st)" "inFlight st ! k = (j, t)"
        "marginNotes st' = (marginNotes st)(j \<mapsto> resolved_note a)"
        "inFlight st' = take k (inFlight st) @ drop (Suc k) (inFlight st)"
    by blast
  then show ?thesis
  proof cases
    case idle
    then show ?thesis using m n by simp
  next
    case fire
    then have "j \<noteq> i" using m by auto
    then show ?thesis using fire m n by auto
  next
    case settle
    have "(j, t) \<in> set (inFlight st)" using settle(2,3) nth_mem by metis
    then have "j \<in> fst ` set (inFlight st)" by force
    then have ji: "j \<noteq> i" using n by auto
    have "set (take k (inFlight st) @ drop (Suc k) (inFlight st)) \<subseteq> set (inFlight st)"
      using set_take_subset set_drop_subset by fastforce
    then show ?thesis using settle ji m n by auto
  qed
qed

lemma run_keeps_entry:
  assumes "marginNotes st i = Some v" and "i \<notin> fst ` set (inFlight st)"
  shows "marginNotes (fst (run es st)) i = Some v \<and>
         i \<notin> fst ` set (inFlight (fst (run es st))) \<and>
         i \<notin> fst ` set (snd (run es st))"
  using assms
proof (induction es arbitrary: st)
  case Nil
  then show ?case by simp
next
  case (Cons e es)
  obtain st1 f where s: "step e st = (st1, f)" by (cases "step e st")
  obtain st2 fs where r: "run es st1 = (st2, fs)" by (cases "run es st1")
  from step_keeps_entry[OF Cons.prems s]
  have k: "marginNotes st1 i = Some v" "i \<notin> fst ` set (inFlight st1)"
    "case f of None \<Rightarrow> True | Some r \<Rightarrow> fst r \<noteq> i"
    by blast+
  from Cons.IH[OF k(1,2)] r
  have "marginNotes st2 i = Some v" "i \<notin> fst ` set (inFlight st2)" "i \<notin> fst ` set fs"
    by simp_all
  then show ?case using s r k(3) by (cases f) auto
qed

text \<open>
  Claim C2, at a failing input. The request for the first paragraph was waiting when the
  page was reloaded. The restored entry of index 0 is the loading entry, no request waits
  for it, and whatever events follow, the entry stays the loading entry, no request for
  index 0 waits and none is fired.
\<close>

theorem reload_leaves_entry_loading:
  "inFlight (fst (run [Edit ''aaaaaaaaaa\<newline>\<newline>b''] (mounted Map.empty))) = [(0, ''aaaaaaaaaa'')] \<and>
   marginNotes interrupted_page 0 = Some loading_note \<and>
   inFlight interrupted_page = [] \<and>
   marginNotes (fst (run es interrupted_page)) 0 = Some loading_note \<and>
   0 \<notin> fst ` set (inFlight (fst (run es interrupted_page))) \<and>
   0 \<notin> fst ` set (snd (run es interrupted_page))"
proof -
  have a: "inFlight (fst (run [Edit ''aaaaaaaaaa\<newline>\<newline>b''] (mounted Map.empty))) =
      [(0, ''aaaaaaaaaa'')]"
    by code_simp
  have b: "marginNotes (fst (run [Edit ''aaaaaaaaaa\<newline>\<newline>b''] (mounted Map.empty))) 0 =
      Some loading_note"
    by code_simp
  have c: "marginNotes interrupted_page 0 = Some loading_note"
    unfolding interrupted_page_def reload_def using b by (simp add: mounted_def)
  have d: "inFlight interrupted_page = []"
    by (simp add: interrupted_page_def reload_def mounted_def)
  have "0 \<notin> fst ` set (inFlight interrupted_page)" unfolding d by simp
  from run_keeps_entry[OF c this, of es] a c d show ?thesis by blast
qed


section \<open>Segmentation and positions\<close>

lemma split_blank_nonempty: "split_blank c \<noteq> []"
  by (induction c rule: split_blank.induct) (auto split: list.splits)

lemma join_blank_Cons: "join_blank ((c # p) # ps) = c # join_blank (p # ps)"
  by (cases ps) simp_all

lemma join_blank_sep: "ps \<noteq> [] \<Longrightarrow> join_blank ([] # ps) = ''\<newline>\<newline>'' @ join_blank ps"
  by (cases ps) simp_all

lemma join_split: "join_blank (split_blank c) = c"
proof (induction c rule: split_blank.induct)
  case 1
  then show ?case by simp
next
  case (2 c)
  then show ?case by simp
next
  case (3 c d cs)
  show ?case
  proof (cases "c = CHR ''\<newline>'' \<and> d = CHR ''\<newline>''")
    case True
    then show ?thesis using 3 by (simp add: join_blank_sep split_blank_nonempty)
  next
    case False
    obtain p ps where s: "split_blank (d # cs) = p # ps"
      using split_blank_nonempty[of "d # cs"] by (cases "split_blank (d # cs)") auto
    then show ?thesis using False 3 by (auto simp: join_blank_Cons)
  qed
qed

lemma split_blank_hd:
  "split_blank (d # cs) = p # ps \<Longrightarrow> p \<noteq> [] \<Longrightarrow> hd p = d"
  by (cases cs) (auto split: if_splits list.splits)

lemma split_no_separator: "p \<in> set (split_blank c) \<Longrightarrow> \<not> sublist ''\<newline>\<newline>'' p"
proof (induction c arbitrary: p rule: split_blank.induct)
  case 1
  then show ?case by simp
next
  case (2 c)
  then show ?case by (simp add: sublist_Cons_right)
next
  case (3 c d cs)
  show ?case
  proof (cases "c = CHR ''\<newline>'' \<and> d = CHR ''\<newline>''")
    case True
    then show ?thesis using 3 by auto
  next
    case False
    obtain q qs where s: "split_blank (d # cs) = q # qs"
      using split_blank_nonempty[of "d # cs"] by (cases "split_blank (d # cs)") auto
    from 3(3) False s have "p = c # q \<or> p \<in> set qs" by auto
    then show ?thesis
    proof
      assume "p \<in> set qs"
      then show ?thesis using 3(2)[of p] False s by auto
    next
      assume p: "p = c # q"
      have nq: "\<not> sublist ''\<newline>\<newline>'' q" using 3(2)[of q] False s by auto
      show ?thesis
      proof (cases "q = []")
        case True
        then show ?thesis using p by (simp add: sublist_Cons_right)
      next
        case False
        with s have "hd q = d" by (rule split_blank_hd)
        then obtain q' where "q = d # q'" using False by (cases q) auto
        then show ?thesis using p nq \<open>\<not> (c = CHR ''\<newline>'' \<and> d = CHR ''\<newline>'')\<close>
          by (auto simp: sublist_Cons_right)
      qed
    qed
  qed
qed

text \<open>
  Claim C5, as amended. The split cuts the document at the blank-line separators: the
  pieces joined with the separator give the document back, and no piece contains the
  separator. The paragraphs are the pieces that are not all white space, in their order
  and as they are, not trimmed; trimmed, they are the paragraphs of the specification's
  wording, so both give every paragraph the same index. Being a function, the segmentation
  is total and gives the same result for the same document.
\<close>

theorem paragraphs_split_filter:
  "join_blank (split_blank c) = c \<and>
   list_all (\<lambda>p. \<not> sublist ''\<newline>\<newline>'' p) (split_blank c) \<and>
   paragraphs c = filter (\<lambda>p. \<not> list_all is_space p) (split_blank c) \<and>
   map trim (paragraphs c) = segment_spec c"
proof -
  have "map trim (paragraphs c) = segment_spec c"
    by (simp add: paragraphs_def segment_spec_def filter_map comp_def)
  moreover have "paragraphs c = filter (\<lambda>p. \<not> list_all is_space p) (split_blank c)"
    by (simp add: paragraphs_def trim_Nil_iff)
  ultimately show ?thesis using join_split split_no_separator
    by (simp add: list_all_iff)
qed

theorem paragraphs_split_filter_witness:
  "split_blank ''Hello\<newline>\<newline>\<newline>World\<newline>\<newline> '' = [''Hello'', ''\<newline>World'', '' ''] \<and>
   join_blank [''Hello'', ''\<newline>World'', '' ''] = ''Hello\<newline>\<newline>\<newline>World\<newline>\<newline> '' \<and>
   paragraphs ''Hello\<newline>\<newline>\<newline>World\<newline>\<newline> '' = [''Hello'', ''\<newline>World''] \<and>
   map trim [''Hello'', ''\<newline>World''] = segment_spec ''Hello\<newline>\<newline>\<newline>World\<newline>\<newline> ''"
proof -
  have a: "split_blank ''Hello\<newline>\<newline>\<newline>World\<newline>\<newline> '' = [''Hello'', ''\<newline>World'', '' '']"
    by code_simp
  have b: "filter (\<lambda>p. \<not> list_all is_space p) [''Hello'', ''\<newline>World'', '' ''] =
           [''Hello'', ''\<newline>World'']"
    by code_simp
  note th = paragraphs_split_filter[of "''Hello\<newline>\<newline>\<newline>World\<newline>\<newline> ''"]
  from th have j: "join_blank [''Hello'', ''\<newline>World'', '' ''] = ''Hello\<newline>\<newline>\<newline>World\<newline>\<newline> ''"
    unfolding a by blast
  from th have p: "paragraphs ''Hello\<newline>\<newline>\<newline>World\<newline>\<newline> '' = [''Hello'', ''\<newline>World'']"
    unfolding a b by blast
  from th have "map trim (paragraphs ''Hello\<newline>\<newline>\<newline>World\<newline>\<newline> '') =
      segment_spec ''Hello\<newline>\<newline>\<newline>World\<newline>\<newline> ''"
    by blast
  then have m: "map trim [''Hello'', ''\<newline>World''] = segment_spec ''Hello\<newline>\<newline>\<newline>World\<newline>\<newline> ''"
    unfolding p .
  from a j p m show ?thesis by blast
qed

text \<open>
  Claim C5 as it is stated fails: the entries are not trimmed. With three line feeds
  between two paragraphs the second paragraph keeps the third line feed.
\<close>

theorem paragraphs_untrimmed_counterexample:
  "paragraphs ''Hello\<newline>\<newline>\<newline>World'' = [''Hello'', ''\<newline>World''] \<and>
   segment_spec ''Hello\<newline>\<newline>\<newline>World'' = [''Hello'', ''World'']"
  by code_simp

text \<open>
  Claim C10, at a failing input. With four line feeds between two paragraphs the split has
  a blank entry between them: the position map has the keys 0 and 2, and the paragraph
  indices are 0 and 1.
\<close>

theorem positions_by_unfiltered_index:
  "paragraphs ''A\<newline>\<newline>\<newline>\<newline>B'' = [''A'', ''B''] \<and>
   (case calculateParagraphPositions (Some example_layout) ''A\<newline>\<newline>\<newline>\<newline>B'' of
      None \<Rightarrow> False
    | Some positions \<Rightarrow>
        positions 0 = Some 60 \<and> positions 1 = None \<and> positions 2 = Some 144)"
proof -
  have a: "paragraphs ''A\<newline>\<newline>\<newline>\<newline>B'' = [''A'', ''B'']" by code_simp
  have b: "split_blank ''A\<newline>\<newline>\<newline>\<newline>B'' = [''A'', [], ''B'']" by code_simp
  have c: "trim ''A'' \<noteq> []" "trim ''B'' \<noteq> []" by code_simp+
  show ?thesis unfolding a
    by (simp add: calculateParagraphPositions_def b example_layout_def c trim_empty)
qed

lemma positions_loop_dom:
  "dom (positions_loop m k ps y pos) =
     dom pos \<union> {k + j | j. j < length ps \<and> trim (ps ! j) \<noteq> []}"
proof (induction ps arbitrary: k y pos)
  case Nil
  then show ?case by simp
next
  case (Cons p ps)
  have s: "{k + j | j. j < length (p # ps) \<and> trim ((p # ps) ! j) \<noteq> []} =
           (if trim p \<noteq> [] then {k} else {}) \<union>
           {Suc k + j | j. j < length ps \<and> trim (ps ! j) \<noteq> []}"
  proof (intro set_eqI iffI)
    fix x
    assume "x \<in> {k + j | j. j < length (p # ps) \<and> trim ((p # ps) ! j) \<noteq> []}"
    then obtain j where j: "x = k + j" "j < length (p # ps)" "trim ((p # ps) ! j) \<noteq> []" by blast
    show "x \<in> (if trim p \<noteq> [] then {k} else {}) \<union>
           {Suc k + j | j. j < length ps \<and> trim (ps ! j) \<noteq> []}"
    proof (cases j)
      case 0
      then show ?thesis using j by auto
    next
      case (Suc j')
      then have "x = Suc k + j'" "j' < length ps" "trim (ps ! j') \<noteq> []" using j by auto
      then show ?thesis by blast
    qed
  next
    fix x
    assume "x \<in> (if trim p \<noteq> [] then {k} else {}) \<union>
           {Suc k + j | j. j < length ps \<and> trim (ps ! j) \<noteq> []}"
    then consider "trim p \<noteq> []" "x = k"
      | j where "x = Suc k + j" "j < length ps" "trim (ps ! j) \<noteq> []"
      by (auto split: if_splits)
    then show "x \<in> {k + j | j. j < length (p # ps) \<and> trim ((p # ps) ! j) \<noteq> []}"
    proof cases
      case 1
      then have "x = k + 0 \<and> 0 < length (p # ps) \<and> trim ((p # ps) ! 0) \<noteq> []" by simp
      then show ?thesis by blast
    next
      case 2
      then have "x = k + Suc j \<and> Suc j < length (p # ps) \<and> trim ((p # ps) ! Suc j) \<noteq> []"
        by simp
      then show ?thesis by blast
    qed
  qed
  show ?case
  proof (cases "trim p = []")
    case True
    then have "positions_loop m k (p # ps) y pos = positions_loop m (Suc k) ps y pos" by simp
    then show ?thesis unfolding s using True Cons.IH[of "Suc k" y pos] by simp
  next
    case False
    then have "positions_loop m k (p # ps) y pos =
        positions_loop m (Suc k) ps (y + (measure m p + lineHeight m * 2)) (pos(k \<mapsto> y))"
      by simp
    moreover have "dom (positions_loop m (Suc k) ps (y + (measure m p + lineHeight m * 2))
                     (pos(k \<mapsto> y))) =
        dom (pos(k \<mapsto> y)) \<union> {Suc k + j | j. j < length ps \<and> trim (ps ! j) \<noteq> []}"
      by (rule Cons.IH)
    ultimately show ?thesis unfolding s using False by auto
  qed
qed

lemma positions_loop_nonneg:
  assumes "0 \<le> lineHeight m" and "\<forall>p. 0 \<le> measure m p"
    and "0 \<le> y" and "\<forall>i v. pos i = Some v \<longrightarrow> 0 \<le> v"
  shows "positions_loop m k ps y pos i = Some v \<Longrightarrow> 0 \<le> v"
  using assms(3,4)
proof (induction ps arbitrary: k y pos)
  case Nil
  then show ?case by simp
next
  case (Cons p ps)
  show ?case
  proof (cases "trim p = []")
    case True
    then show ?thesis using Cons by simp
  next
    case False
    have "0 \<le> y + (measure m p + lineHeight m * 2)"
      using assms(1,2) Cons.prems(2) by (simp add: add_nonneg_nonneg)
    moreover have "\<forall>i v. (pos(k \<mapsto> y)) i = Some v \<longrightarrow> 0 \<le> v"
      using Cons.prems(2,3) by auto
    moreover have "positions_loop m k (p # ps) y pos =
        positions_loop m (Suc k) ps (y + (measure m p + lineHeight m * 2)) (pos(k \<mapsto> y))"
      using False by simp
    ultimately show ?thesis using Cons.IH Cons.prems(1) by metis
  qed
qed

section \<open>Loading at startup\<close>

lemma JSON_parse_empty: "JSON_parse [] = Inl SyntaxError"
  by (simp add: JSON_parse_def)

text \<open>
  Claim C9, as amended. The startup effect completes exactly when the stored note mapping
  is absent, empty, or a text \<open>JSON.parse\<close> accepts. An absent or empty value leaves the
  mapping as it is (empty); an accepted text installs the parsed value; a text that fails
  to parse makes the effect throw the \<open>SyntaxError\<close>.
\<close>

theorem load_saved_total_iff:
  "((\<exists>r. load_saved c n = Inr r) \<longleftrightarrow>
      (n = None \<or> n = Some [] \<or> (\<exists>s v. n = Some s \<and> JSON_parse s = Inr v))) \<and>
   (n = None \<or> n = Some [] \<longrightarrow> (\<exists>c'. load_saved c n = Inr (c', None))) \<and>
   (n = Some s \<and> JSON_parse s = Inr v \<longrightarrow> (\<exists>c'. load_saved c n = Inr (c', Some v))) \<and>
   (n = Some s \<and> s \<noteq> [] \<and> JSON_parse s = Inl e \<longrightarrow> load_saved c n = Inl e)"
proof -
  have 1: "(\<exists>r. load_saved c n = Inr r) \<longleftrightarrow>
      (n = None \<or> n = Some [] \<or> (\<exists>s v. n = Some s \<and> JSON_parse s = Inr v))"
  proof (cases n)
    case None
    then show ?thesis by (simp add: load_saved_def Let_def)
  next
    case (Some s)
    show ?thesis
    proof (cases "s = []")
      case True
      then show ?thesis using Some by (simp add: load_saved_def Let_def)
    next
      case False
      then show ?thesis using Some
        by (cases "JSON_parse s") (simp_all add: load_saved_def Let_def)
    qed
  qed
  have 2: "n = None \<or> n = Some [] \<longrightarrow> (\<exists>c'. load_saved c n = Inr (c', None))"
    by (auto simp: load_saved_def Let_def)
  have 3: "n = Some s \<and> JSON_parse s = Inr v \<longrightarrow> (\<exists>c'. load_saved c n = Inr (c', Some v))"
    using JSON_parse_empty by (auto simp: load_saved_def Let_def)
  have 4: "n = Some s \<and> s \<noteq> [] \<and> JSON_parse s = Inl e \<longrightarrow> load_saved c n = Inl e"
    by (auto simp: load_saved_def Let_def)
  from 1 2 3 4 show ?thesis by blast
qed

theorem load_saved_total_iff_witness:
  \<open>JSON_parse ''{"0":{"text":"Hi","type":"question","isVisible":true,"isLoading":false}}'' =
     Inr (JObject [(''0'', JObject [(''text'', JString ''Hi''), (''type'', JString ''question''),
                                    (''isVisible'', JBool True), (''isLoading'', JBool False)])]) \<and>
   (\<exists>c'. load_saved (Some ''I feel stuck today.'')
            (Some ''{"0":{"text":"Hi","type":"question","isVisible":true,"isLoading":false}}'') =
          Inr (c', Some (JObject [(''0'', JObject [(''text'', JString ''Hi''),
                 (''type'', JString ''question''), (''isVisible'', JBool True),
                 (''isLoading'', JBool False)])]))) \<and>
   (\<exists>c'. load_saved (Some ''I feel stuck today.'') None = Inr (c', None)) \<and>
   JSON_parse ''{"0":{"text":"Hi"'' = Inl SyntaxError \<and>
   load_saved (Some ''I feel stuck today.'') (Some ''{"0":{"text":"Hi"'') = Inl SyntaxError\<close>
proof -
  have a: \<open>JSON_parse ''{"0":{"text":"Hi","type":"question","isVisible":true,"isLoading":false}}'' =
     Inr (JObject [(''0'', JObject [(''text'', JString ''Hi''), (''type'', JString ''question''),
                                    (''isVisible'', JBool True), (''isLoading'', JBool False)])])\<close>
    by code_simp
  have b: \<open>JSON_parse ''{"0":{"text":"Hi"'' = Inl SyntaxError\<close>
    by code_simp
  have c: \<open>''{"0":{"text":"Hi"'' \<noteq> []\<close>
    by simp
  show ?thesis
    using load_saved_total_iff[of "Some ''I feel stuck today.''" _ _ _ SyntaxError] a b c
    by blast
qed

text \<open>
  Claim C9 as it is stated fails: a stored note mapping that is cut off in the middle
  makes the startup effect throw; it is not treated as an empty mapping.
\<close>

theorem load_saved_malformed_counterexample:
  \<open>load_saved (Some ''I feel stuck today.'') (Some ''{"0":{"text":"Hi"'') = Inl SyntaxError\<close>
  by code_simp

end
